theory Spec2Isabelle
  imports Complex_Main "HOL-Library.Word"
begin

section \<open>JavaScript strings\<close>

text \<open>
  A JavaScript string is a sequence of UTF-16 code units and \<open>.length\<close> counts code
  units. String literals of the source are ASCII; \<open>lit\<close> embeds them.
\<close>

type_synonym js_string = "16 word list"

definition lit :: "string \<Rightarrow> js_string" where
  "lit s = map (\<lambda>c. of_nat (of_char c)) s"

text \<open>
  The code units that \<open>String.prototype.trim\<close> strips and that the regular expression
  class \<open>\s\<close> matches (ECMAScript WhiteSpace and LineTerminator): TAB, LF, VT, FF, CR,
  SPACE, NBSP, U+1680, U+2000 to U+200A, U+2028, U+2029, U+202F, U+205F, U+3000, U+FEFF.
\<close>

definition isWhiteSpace :: "16 word \<Rightarrow> bool" where
  "isWhiteSpace c \<longleftrightarrow>
     c \<in> set [0x0009, 0x000A, 0x000B, 0x000C, 0x000D, 0x0020, 0x00A0, 0x1680,
               0x2028, 0x2029, 0x202F, 0x205F, 0x3000, 0xFEFF]
     \<or> (0x2000 \<le> c \<and> c \<le> 0x200A)"

definition trim :: "js_string \<Rightarrow> js_string" where
  "trim s = rev (dropWhile isWhiteSpace (rev (dropWhile isWhiteSpace s)))"

text \<open>
  \<open>s.split(/\s+/)\<close>: scanning from the left, every maximal run of white space closes the
  segment collected so far and the rest of the string after the run is scanned with an
  empty segment; the end of the string closes the last segment. On the empty string the
  pattern does not match and the result is the one-element array holding \<open>""\<close>.
  \<open>split_from cur s\<close> is the scan with \<open>cur\<close> the segment collected so far.
\<close>

function split_from :: "js_string \<Rightarrow> js_string \<Rightarrow> js_string list" where
  "split_from cur [] = [cur]"
| "split_from cur (c # cs) =
     (if isWhiteSpace c then cur # split_from [] (dropWhile isWhiteSpace cs)
      else split_from (cur @ [c]) cs)"
  by pat_completeness auto
termination
  by (relation "measure (\<lambda>(cur, s). length s)")
     (auto simp: length_dropWhile_le less_Suc_eq_le)

definition split_ws :: "js_string \<Rightarrow> js_string list" where
  "split_ws s = split_from [] s"

section \<open>Stats engine (\<open>updateStats\<close> in App.tsx)\<close>

record text_stats =
  words :: nat
  chars :: nat

text \<open>
  The computation of \<open>updateStats\<close> on the text it has read from the editing surface:
  \<open>words = text.trim() === '' ? 0 : text.trim().split(/\s+/).length\<close>,
  \<open>chars = text.length\<close>.
\<close>

definition computeStats :: "js_string \<Rightarrow> text_stats" where
  "computeStats text =
     \<lparr> words = (if trim text = [] then 0 else length (split_ws (trim text))),
       chars = length text \<rparr>"

text \<open>
  The spec's data model words the count as the number of maximal white-space-delimited
  non-empty runs. \<open>spec_runs prev s\<close> counts the positions of \<open>s\<close> where such a run
  starts: a character that is not white space and whose predecessor is white space
  (\<open>prev\<close> tells whether the character before \<open>s\<close> is white space or the start of the text).
\<close>

fun spec_runs :: "bool \<Rightarrow> js_string \<Rightarrow> nat" where
  "spec_runs prev [] = 0"
| "spec_runs prev (c # cs) =
     (if \<not> isWhiteSpace c \<and> prev then 1 else 0) + spec_runs (isWhiteSpace c) cs"

section \<open>AI assistance client (services/geminiService.ts)\<close>

text \<open>
  A thrown value or a rejected promise is \<open>Inl\<close> of a result; \<open>Error m\<close> is
  \<open>new Error(m)\<close>. Output on the console is not modelled.
\<close>

datatype js_error = Error js_string

datatype mode = Continue | Summarize | Fix | Tone | Custom

text \<open>
  \<open>a || b\<close> on a string that may be undefined: the undefined value and the empty string
  are falsy.
\<close>

definition js_or :: "js_string option \<Rightarrow> js_string \<Rightarrow> js_string" where
  "js_or a b = (case a of None \<Rightarrow> b | Some t \<Rightarrow> if t = [] then b else t)"

record GoogleGenAI =
  apiKey :: js_string

text \<open>\<open>getAI\<close>, given the value of \<open>process.env.API_KEY\<close> (\<open>None\<close> when it is not set).\<close>

definition getAI :: "js_string option \<Rightarrow> js_error + GoogleGenAI" where
  "getAI API_KEY =
     (if js_or API_KEY [] = [] then Inl (Error (lit ''API Key not found''))
      else Inr \<lparr> apiKey = js_or API_KEY [] \<rparr>)"

record request =
  model :: js_string
  contents :: js_string
  systemInstruction :: js_string
  temperature :: "rat option"

text \<open>
  The backend is the third-party SDK, a parameter of the model. \<open>generateContent\<close>
  rejects or resolves with a response whose \<open>text\<close> may be undefined.
  \<open>generateContentStream\<close> rejects or resolves with a stream: the \<open>text\<close> of the chunks
  it yields, in order, and the error that ends the iteration if it fails before its end.
\<close>

type_synonym chunk = "js_string option"

record backend =
  generateContent :: "request \<Rightarrow> js_error + js_string option"
  generateContentStream :: "request \<Rightarrow> js_error + chunk list \<times> js_error option"

definition instruction_of :: "mode \<Rightarrow> js_string" where
  "instruction_of m =
     lit ''You are a helpful writing assistant integrated into a document editor. '' @
     (case m of
        Continue \<Rightarrow> lit ''Continue the text naturally based on the provided context. Keep formatting simple (HTML/Markdown).''
      | Summarize \<Rightarrow> lit ''Provide a concise summary of the provided text.''
      | Fix \<Rightarrow> lit ''Fix grammar and spelling errors in the provided text without changing the meaning.''
      | Tone \<Rightarrow> lit ''Rewrite the text to be more professional and concise.''
      | Custom \<Rightarrow> lit ''Follow the user's specific instructions for the provided text.'')"

text \<open>The template literal of the single-shot payload; 0x22 is the double quote, 0x0A the newline.\<close>

definition generate_request :: "js_string \<Rightarrow> js_string \<Rightarrow> mode \<Rightarrow> request" where
  "generate_request prompt context m =
     \<lparr> model = lit ''gemini-2.5-flash'',
       contents = lit ''Context/Current Text: '' @ [0x22] @ context @ [0x22, 0x0A, 0x0A]
                  @ lit ''Task: '' @ prompt,
       systemInstruction = instruction_of m,
       temperature = Some (7 / 10) \<rparr>"

text \<open>
  The outcome of a call of the single-shot entry point: what the promise settles with
  and the requests that reached the backend.
\<close>

record generate_outcome =
  settled :: "js_error + js_string"
  dispatched :: "request list"

text \<open>The body of the \<open>try\<close> block of \<open>generateWritingAssistance\<close>.\<close>

definition generate_try ::
  "js_string option \<Rightarrow> backend \<Rightarrow> js_string \<Rightarrow> js_string \<Rightarrow> mode \<Rightarrow> generate_outcome" where
  "generate_try API_KEY be prompt context m =
     (case getAI API_KEY of
        Inl e \<Rightarrow> \<lparr> settled = Inl e, dispatched = [] \<rparr>
      | Inr ai \<Rightarrow>
          (let req = generate_request prompt context m in
           case generateContent be req of
             Inl e \<Rightarrow> \<lparr> settled = Inl e, dispatched = [req] \<rparr>
           | Inr text \<Rightarrow> \<lparr> settled = Inr (js_or text []), dispatched = [req] \<rparr>))"

definition apology :: js_string where
  "apology = lit ''Sorry, I encountered an error while processing your request.''"

text \<open>\<open>generateWritingAssistance\<close>: the \<open>try\<close> block and its \<open>catch\<close>.\<close>

definition generateWritingAssistance ::
  "js_string option \<Rightarrow> backend \<Rightarrow> js_string \<Rightarrow> js_string \<Rightarrow> mode \<Rightarrow> generate_outcome" where
  "generateWritingAssistance API_KEY be prompt context m =
     (let r = generate_try API_KEY be prompt context m in
      case settled r of
        Inl e \<Rightarrow> r\<lparr> settled := Inr apology \<rparr>
      | Inr t \<Rightarrow> r)"

definition stream_request :: "js_string \<Rightarrow> js_string \<Rightarrow> request" where
  "stream_request prompt context =
     \<lparr> model = lit ''gemini-2.5-flash'',
       contents = lit ''Context: '' @ [0x22] @ context @ [0x22, 0x0A, 0x0A]
                  @ lit ''Instruction: '' @ prompt,
       systemInstruction = lit ''You are an intelligent writing assistant. Return raw text or simple HTML suitable for a contentEditable div.'',
       temperature = None \<rparr>"

text \<open>
  \<open>onChunk\<close> is the caller's function and may throw. It is a parameter: from the
  caller's state and the text it is called with, the state it leaves and what it throws,
  if it throws.
\<close>

type_synonym 'c callback = "'c \<Rightarrow> js_string \<Rightarrow> 'c \<times> js_error option"

text \<open>
  The \<open>for await\<close> loop over the chunks received, from the caller's state \<open>c\<close>: what
  leaves the loop (\<open>None\<close> when it runs to the end of the chunks, the error when
  \<open>onChunk\<close> throws), the arguments \<open>onChunk\<close> has been called with, in order, and the
  caller's state. A chunk whose \<open>text\<close> is falsy is passed over.
\<close>

fun for_await :: "'c callback \<Rightarrow> chunk list \<Rightarrow> 'c \<Rightarrow> js_error option \<times> js_string list \<times> 'c" where
  "for_await onChunk [] c = (None, [], c)"
| "for_await onChunk (ch # chs) c =
     (if js_or ch [] \<noteq> [] then
        (case onChunk c (js_or ch []) of
           (c', Some e) \<Rightarrow> (Some e, [js_or ch []], c')
         | (c', None) \<Rightarrow>
             (case for_await onChunk chs c' of
                (thrown, calls, c'') \<Rightarrow> (thrown, js_or ch [] # calls, c'')))
      else for_await onChunk chs c)"

text \<open>
  The outcome of a call of the streaming entry point: what the promise settles with, the
  arguments of the calls of \<open>onChunk\<close>, the caller's state, and the requests that reached
  the backend.
\<close>

record 'c stream_outcome =
  returned :: "js_error + unit"
  onChunk_calls :: "js_string list"
  callback_state :: 'c
  stream_dispatched :: "request list"

text \<open>
  The body of the \<open>try\<close> block of \<open>streamWritingAssistance\<close>. The stream's own failure
  comes after the chunks it has yielded, so it is met only if the loop runs to their end.
\<close>

definition stream_try ::
  "js_string option \<Rightarrow> backend \<Rightarrow> js_string \<Rightarrow> js_string \<Rightarrow> 'c callback \<Rightarrow> 'c
     \<Rightarrow> 'c stream_outcome" where
  "stream_try API_KEY be prompt context onChunk c =
     (case getAI API_KEY of
        Inl e \<Rightarrow>
          \<lparr> returned = Inl e, onChunk_calls = [], callback_state = c, stream_dispatched = [] \<rparr>
      | Inr ai \<Rightarrow>
          (let req = stream_request prompt context in
           case generateContentStream be req of
             Inl e \<Rightarrow>
               \<lparr> returned = Inl e, onChunk_calls = [], callback_state = c,
                 stream_dispatched = [req] \<rparr>
           | Inr (chunks, failure) \<Rightarrow>
               (case for_await onChunk chunks c of
                  (thrown, calls, c') \<Rightarrow>
                    \<lparr> returned =
                        (case thrown of
                           Some e \<Rightarrow> Inl e
                         | None \<Rightarrow> (case failure of None \<Rightarrow> Inr () | Some e \<Rightarrow> Inl e)),
                      onChunk_calls = calls, callback_state = c',
                      stream_dispatched = [req] \<rparr>)))"

definition error_chunk :: js_string where
  "error_chunk = lit ''[Error: Failed to generate content]''"

text \<open>
  \<open>streamWritingAssistance\<close>: the \<open>try\<close> block and its \<open>catch\<close>, which calls \<open>onChunk\<close>
  with the error chunk; what that call throws is not caught.
\<close>

definition streamWritingAssistance ::
  "js_string option \<Rightarrow> backend \<Rightarrow> js_string \<Rightarrow> js_string \<Rightarrow> 'c callback \<Rightarrow> 'c
     \<Rightarrow> 'c stream_outcome" where
  "streamWritingAssistance API_KEY be prompt context onChunk c =
     (let r = stream_try API_KEY be prompt context onChunk c in
      case returned r of
        Inl e \<Rightarrow>
          (case onChunk (callback_state r) error_chunk of
             (c', thrown) \<Rightarrow>
               r\<lparr> returned := (case thrown of None \<Rightarrow> Inr () | Some e' \<Rightarrow> Inl e'),
                  onChunk_calls := onChunk_calls r @ [error_chunk],
                  callback_state := c' \<rparr>)
      | Inr u \<Rightarrow> r)"

text \<open>The texts of the chunks that carry one, in the order of the chunks.\<close>

definition texts_of :: "chunk list \<Rightarrow> js_string list" where
  "texts_of chunks = filter (\<lambda>t. t \<noteq> []) (List.map_filter id chunks)"

section \<open>The application state (App.tsx)\<close>

text \<open>
  The editing surface is the browser's: the model holds what the code reads from it,
  \<open>innerHTML\<close> and \<open>innerText\<close>. \<open>editorRef.current\<close> is \<open>None\<close> while the element is
  not mounted.
\<close>

record editor =
  innerHTML :: js_string
  innerText :: js_string

text \<open>
  A pending timer of the browser. The only callback the application schedules is the save
  callback of \<open>handleInput\<close>, a closure over \<open>title\<close> of the render that created it;
  \<open>saved_title\<close> is that captured value. Times are in milliseconds. A timer handle
  is never falsy (the source types it as an object), so the test of
  \<open>saveTimeoutRef.current\<close> in \<open>handleInput\<close> is the test for \<open>null\<close>.
\<close>

record timer =
  tid :: nat
  due :: nat
  saved_title :: js_string

text \<open>
  The component state (\<open>useState\<close>, \<open>useRef\<close>) followed by the environment: the
  durable store with the list of the \<open>setItem\<close> calls made, the pending timers, the
  clock, and the text selected in the window (\<open>None\<close> when there is no selection object).
\<close>

record app =
  title :: js_string
  content :: js_string
  lastSaved :: "nat option"
  isSaving :: bool
  showAiModal :: bool
  stats :: text_stats
  editorRef :: "editor option"
  saveTimeoutRef :: "nat option"
  aiPrompt :: js_string
  aiLoading :: bool
  aiResponse :: "js_string option"
  localStorage :: "js_string \<rightharpoonup> js_string"
  setItem_log :: "(js_string \<times> js_string) list"
  timers :: "timer list"
  next_timer :: nat
  now :: nat
  selection :: "js_string option"

definition content_key :: js_string where
  "content_key = lit ''docylit-content''"

definition title_key :: js_string where
  "title_key = lit ''docylit-title''"

definition setItem :: "js_string \<Rightarrow> js_string \<Rightarrow> app \<Rightarrow> app" where
  "setItem k v s =
     s\<lparr> localStorage := (localStorage s)(k \<mapsto> v), setItem_log := setItem_log s @ [(k, v)] \<rparr>"

definition setTimeout :: "js_string \<Rightarrow> nat \<Rightarrow> app \<Rightarrow> nat \<times> app" where
  "setTimeout captured delay s =
     (next_timer s,
      s\<lparr> timers := timers s @ [\<lparr> tid = next_timer s, due = now s + delay, saved_title = captured \<rparr>],
         next_timer := Suc (next_timer s) \<rparr>)"

definition clearTimeout :: "nat \<Rightarrow> app \<Rightarrow> app" where
  "clearTimeout i s = s\<lparr> timers := filter (\<lambda>t. tid t \<noteq> i) (timers s) \<rparr>"

definition updateStats :: "app \<Rightarrow> app" where
  "updateStats s =
     (case editorRef s of
        None \<Rightarrow> s
      | Some e \<Rightarrow> s\<lparr> stats := computeStats (js_or (Some (innerText e)) []) \<rparr>)"

text \<open>The callback \<open>handleInput\<close> passes to \<open>setTimeout\<close>, with the title it captured.\<close>

definition save_callback :: "js_string \<Rightarrow> app \<Rightarrow> app" where
  "save_callback captured s =
     (case editorRef s of
        None \<Rightarrow> s
      | Some e \<Rightarrow>
          (setItem title_key captured (setItem content_key (innerHTML e) s))
            \<lparr> lastSaved := Some (now s), isSaving := False \<rparr>)"

definition handleInput :: "app \<Rightarrow> app" where
  "handleInput s =
     (let s1 = (updateStats s)\<lparr> isSaving := True \<rparr>;
          s2 = (case saveTimeoutRef s1 of None \<Rightarrow> s1 | Some i \<Rightarrow> clearTimeout i s1);
          (i, s3) = setTimeout (title s) 1000 s2
      in s3\<lparr> saveTimeoutRef := Some i \<rparr>)"

text \<open>
  A change of the title input: \<open>setTitle\<close>, and after the render the effect that depends
  on \<open>title\<close>. Setting the value the state already has causes no render and no effect.
\<close>

definition setTitle :: "js_string \<Rightarrow> app \<Rightarrow> app" where
  "setTitle v s = (if v = title s then s else setItem title_key v (s\<lparr> title := v \<rparr>))"

text \<open>
  The first render and its two effects, in the order of their declaration: the load
  effect reads the store, requests the saved title and content as the next state, sets
  the markup of the editing surface and updates the statistics; the title effect writes
  the title of the first render. The render that follows runs the title effect again if
  the title has changed. \<open>render\<close> is the browser's: the visible text of a markup.
\<close>

definition mount :: "(js_string \<Rightarrow> js_string) \<Rightarrow> (js_string \<rightharpoonup> js_string) \<Rightarrow> app" where
  "mount render store =
     (let savedContent = store content_key;
          savedTitle = store title_key;
          html = js_or savedContent (lit ''<p><br></p>'');
          s0 = \<lparr> title = lit ''Untitled document'', content = [], lastSaved = None,
                 isSaving = False, showAiModal = False, stats = \<lparr> words = 0, chars = 0 \<rparr>,
                 editorRef = Some \<lparr> innerHTML = html, innerText = render html \<rparr>,
                 saveTimeoutRef = None, aiPrompt = [], aiLoading = False, aiResponse = None,
                 localStorage = store, setItem_log = [], timers = [], next_timer = 1,
                 now = 0, selection = None \<rparr>;
          s1 = updateStats s0;
          s2 = setItem title_key (title s1) s1;
          s3 = s2\<lparr> content := js_or savedContent (content s2) \<rparr>
      in setTitle (js_or savedTitle (title s3)) s3)"

text \<open>
  \<open>document.execCommand\<close> is the editing surface's capability, a parameter: from the
  command name, its value and the surface, the surface after the command.
\<close>

type_synonym exec_command = "js_string \<Rightarrow> js_string option \<Rightarrow> editor \<Rightarrow> editor"

definition format :: "exec_command \<Rightarrow> js_string \<Rightarrow> js_string option \<Rightarrow> app \<Rightarrow> app" where
  "format exec command v s =
     handleInput (s\<lparr> editorRef := map_option (exec command v) (editorRef s) \<rparr>)"

text \<open>
  An input event of the editing surface: the browser has changed the surface to \<open>e\<close>
  and calls \<open>onInput\<close>, the \<open>handleInput\<close> of the current render.
\<close>

definition input_event :: "editor \<Rightarrow> app \<Rightarrow> app" where
  "input_event e s = handleInput (s\<lparr> editorRef := map_option (\<lambda>_. e) (editorRef s) \<rparr>)"

subsection \<open>The passing of time\<close>

text \<open>
  \<open>next_due limit ts\<close> is the pending timer that fires first among those due at \<open>limit\<close>
  at the latest: the earliest due, the first scheduled among equals.
\<close>

fun earliest :: "timer list \<Rightarrow> timer option" where
  "earliest [] = None"
| "earliest (t # ts) =
     (case earliest ts of
        None \<Rightarrow> Some t
      | Some u \<Rightarrow> if due t \<le> due u then Some t else Some u)"

definition next_due :: "nat \<Rightarrow> timer list \<Rightarrow> timer option" where
  "next_due limit ts = earliest (filter (\<lambda>t. due t \<le> limit) ts)"

text \<open>A timer fires: it leaves the pending timers, the clock is at its due time, its callback runs.\<close>

definition fire :: "timer \<Rightarrow> app \<Rightarrow> app" where
  "fire t s =
     save_callback (saved_title t) (s\<lparr> timers := remove1 t (timers s), now := max (now s) (due t) \<rparr>)"

text \<open>
  \<open>advance dt s\<close>: \<open>dt\<close> milliseconds pass with no other event; every timer that becomes
  due fires at its due time, in order.
\<close>

function advance :: "nat \<Rightarrow> app \<Rightarrow> app" where
  "advance dt s =
     (case next_due (now s + dt) (timers s) of
        None \<Rightarrow> s\<lparr> now := now s + dt \<rparr>
      | Some t \<Rightarrow> advance (now s + dt - max (now s) (due t)) (fire t s))"
  by pat_completeness auto
termination
proof (relation "measure (\<lambda>(dt, s). length (timers s))")
  show "wf (measure (\<lambda>(dt, s). length (timers s)))"
    by simp
next
  fix dt :: nat and s :: app and t :: timer
  assume nd: "next_due (now s + dt) (timers s) = Some t"
  have mem: "earliest ts = Some u \<Longrightarrow> u \<in> set ts" for ts u
    by (induction ts arbitrary: u) (auto split: option.splits if_splits)
  from nd have "t \<in> set (timers s)"
    using mem [of "filter (\<lambda>t. due t \<le> now s + dt) (timers s)" t]
    by (simp add: next_due_def)
  then have "length (remove1 t (timers s)) < length (timers s)"
    by (simp add: length_remove1) (cases "timers s"; simp)
  moreover have "timers (fire t s) = remove1 t (timers s)"
    by (simp add: fire_def save_callback_def setItem_def split: option.splits)
  ultimately show "((now s + dt - max (now s) (due t), fire t s), (dt, s))
      \<in> measure (\<lambda>(dt, s). length (timers s))"
    by simp
qed

declare advance.simps [simp del]

text \<open>A burst of edits: each input event comes \<open>gap\<close> milliseconds after the previous one.\<close>

fun burst :: "(nat \<times> editor) list \<Rightarrow> app \<Rightarrow> app" where
  "burst [] s = s"
| "burst ((gap, e) # r) s = burst r (input_event e (advance gap s))"

text \<open>
  The debounce invariant of the running application: at most one timer is pending and
  \<open>saveTimeoutRef\<close> holds its identifier.
\<close>

definition timer_inv :: "app \<Rightarrow> bool" where
  "timer_inv s =
     (case timers s of
        [] \<Rightarrow> True
      | [t] \<Rightarrow> saveTimeoutRef s = Some (tid t)
      | _ \<Rightarrow> False)"

definition content_writes :: "app \<Rightarrow> js_string list" where
  "content_writes s = map snd (filter (\<lambda>kv. fst kv = content_key) (setItem_log s))"

text \<open>
  A save is pending for the title \<open>T\<close>: the one pending timer is due 1000 ms from now,
  its callback has captured \<open>T\<close>, and \<open>saveTimeoutRef\<close> holds its identifier.
\<close>

definition pending_save :: "js_string \<Rightarrow> app \<Rightarrow> bool" where
  "pending_save T s =
     (case timers s of
        [t] \<Rightarrow> due t = now s + 1000 \<and> saved_title t = T \<and> saveTimeoutRef s = Some (tid t)
      | _ \<Rightarrow> False)"

section \<open>Assistance session controller (App.tsx)\<close>

text \<open>The prompt sent: the user's, or the one derived from the mode by the \<open>switch\<close>.\<close>

definition promptToSend :: "js_string \<Rightarrow> mode \<Rightarrow> js_string" where
  "promptToSend prompt m =
     (if prompt \<noteq> [] then prompt
      else case m of
        Summarize \<Rightarrow> lit ''Summarize this text concisely.''
      | Fix \<Rightarrow> lit ''Fix grammar, spelling, and punctuation errors.''
      | Tone \<Rightarrow> lit ''Rewrite this to sound more professional and concise.''
      | Continue \<Rightarrow> lit ''Continue writing naturally based on the context.''
      | Custom \<Rightarrow> lit ''Help me write.'')"

text \<open>\<open>window.getSelection()?.toString() || editorRef.current?.innerText || ""\<close>\<close>

definition capture_context :: "app \<Rightarrow> js_string" where
  "capture_context s = js_or (selection s) (js_or (map_option innerText (editorRef s)) [])"

text \<open>
  \<open>handleAiRequest\<close> in its two parts: up to the \<open>await\<close> (the state while the request is
  in flight), and from the settling of the promise on.
\<close>

definition request_started :: "app \<Rightarrow> app" where
  "request_started s = s\<lparr> aiLoading := True, aiResponse := None \<rparr>"

definition request_settled :: "js_error + js_string \<Rightarrow> app \<Rightarrow> app" where
  "request_settled r s =
     (case r of
        Inr result \<Rightarrow> s\<lparr> aiResponse := Some result \<rparr>
      | Inl e \<Rightarrow> s\<lparr> aiResponse := Some (lit ''Error generating content. Please try again.'') \<rparr>)
     \<lparr> aiLoading := False \<rparr>"

text \<open>The whole of \<open>handleAiRequest\<close>, with the requests that reached the backend.\<close>

definition handleAiRequest ::
  "js_string option \<Rightarrow> backend \<Rightarrow> mode \<Rightarrow> app \<Rightarrow> app \<times> request list" where
  "handleAiRequest API_KEY be m s =
     (if aiPrompt s = [] \<and> m = Continue then (s, [])
      else
        (let s1 = request_started s;
             context = capture_context s;
             r = generateWritingAssistance API_KEY be (promptToSend (aiPrompt s) m) context m
         in (request_settled (settled r) s1, dispatched r)))"

definition insertAiContent :: "exec_command \<Rightarrow> app \<Rightarrow> app" where
  "insertAiContent exec s =
     (if js_or (aiResponse s) [] \<noteq> [] then
        handleInput
          (s\<lparr> editorRef := map_option (exec (lit ''insertText'') (aiResponse s)) (editorRef s),
             aiResponse := None, aiPrompt := [], showAiModal := False \<rparr>)
      else s)"

text \<open>
  The states of an assistance session as the application shows them: the spinner while
  \<open>aiLoading\<close>, the preview with Discard and Insert while a non-empty \<open>aiResponse\<close> is
  held, the suggestions otherwise.
\<close>

datatype session = Idle | Loading | Responded js_string

definition session_of :: "app \<Rightarrow> session" where
  "session_of s =
     (if aiLoading s then Loading
      else if js_or (aiResponse s) [] \<noteq> [] then Responded (js_or (aiResponse s) [])
      else Idle)"

section \<open>Backends and surfaces for the worked examples\<close>

text \<open>A backend that answers every request, and streams three chunks, the second without text.\<close>

definition answering_backend :: backend where
  "answering_backend =
     \<lparr> generateContent = (\<lambda>req. Inr (Some (lit ''Draft text.''))),
       generateContentStream =
         (\<lambda>req. Inr ([Some (lit ''Once''), None, Some (lit '' upon'')], None)) \<rparr>"

text \<open>A backend whose transport fails; its stream fails after two chunks.\<close>

definition failing_backend :: backend where
  "failing_backend =
     \<lparr> generateContent = (\<lambda>req. Inl (Error (lit ''fetch failed''))),
       generateContentStream =
         (\<lambda>req. Inr ([Some (lit ''Once''), Some (lit '' upon'')], Some (Error (lit ''reset'')))) \<rparr>"

text \<open>A backend that succeeds with no text, and cannot open a stream.\<close>

definition silent_backend :: backend where
  "silent_backend =
     \<lparr> generateContent = (\<lambda>req. Inr None),
       generateContentStream = (\<lambda>req. Inl (Error (lit ''unavailable''))) \<rparr>"

text \<open>
  Callbacks whose state is the list of the texts received: one that never throws, and
  one that throws on the texts listed in \<open>bad\<close>, after recording them.
\<close>

definition recording_callback :: "js_string list callback" where
  "recording_callback c t = (c @ [t], None)"

definition throwing_on :: "js_string list \<Rightarrow> js_string list callback" where
  "throwing_on bad c t =
     (c @ [t], if t \<in> set bad then Some (Error (lit ''callback failed'')) else None)"

text \<open>An editing surface whose \<open>insertText\<close> appends at the end, the cursor's place.\<close>

definition appending_surface :: exec_command where
  "appending_surface command v e =
     (if command = lit ''insertText''
      then \<lparr> innerHTML = innerHTML e @ js_or v [], innerText = innerText e @ js_or v [] \<rparr>
      else e)"

text \<open>A mounted application holding the text \<open>draft text\<close>, nothing pending.\<close>

definition draft_app :: app where
  "draft_app =
     \<lparr> title = lit ''Untitled document'', content = [], lastSaved = None, isSaving = False,
       showAiModal = True, stats = \<lparr> words = 2, chars = 10 \<rparr>,
       editorRef = Some \<lparr> innerHTML = lit ''<p>draft text</p>'', innerText = lit ''draft text'' \<rparr>,
       saveTimeoutRef = None, aiPrompt = [], aiLoading = False, aiResponse = None,
       localStorage = [title_key \<mapsto> lit ''Untitled document''],
       setItem_log = [(title_key, lit ''Untitled document'')],
       timers = [], next_timer = 1, now = 0, selection = None \<rparr>"

text \<open>Three states of the editing surface while \<open>Hello world\<close> is typed.\<close>

definition edit1 :: editor where
  "edit1 = \<lparr> innerHTML = lit ''<p>H</p>'', innerText = lit ''H'' \<rparr>"

definition edit2 :: editor where
  "edit2 = \<lparr> innerHTML = lit ''<p>He</p>'', innerText = lit ''He'' \<rparr>"

definition edit3 :: editor where
  "edit3 = \<lparr> innerHTML = lit ''<p>Hello world</p>'', innerText = lit ''Hello world'' \<rparr>"

text \<open>The application after a \<open>fix\<close> request that the backend answered, and after one that failed.\<close>

definition responded_app :: app where
  "responded_app = fst (handleAiRequest (Some (lit ''k'')) answering_backend Fix draft_app)"

definition errored_app :: app where
  "errored_app = fst (handleAiRequest (Some (lit ''k'')) failing_backend Fix draft_app)"

section \<open>Lemmas on strings\<close>

lemma of_char_unat16: "unat (of_nat (of_char c :: nat) :: 16 word) = of_char c"
proof -
  have "(of_char c :: nat) mod 256 < 256"
    by simp
  then have "(of_char c :: nat) < 256"
    by (simp only: of_char_mod_256)
  then have "(of_char c :: nat) < 65536"
    by linarith
  then have "(of_char c :: nat) mod 65536 = of_char c"
    by (rule mod_less)
  then show ?thesis
    by (simp add: unat_of_nat take_bit_eq_mod)
qed

lemma lit_eq_iff [simp]: "lit a = lit b \<longleftrightarrow> a = b"
proof -
  have "inj (\<lambda>c::char. (of_nat (of_char c) :: 16 word))"
    by (rule injI) (metis of_char_unat16 of_char_eq_iff)
  then show ?thesis
    unfolding lit_def by (rule inj_map_eq_map)
qed

lemma length_lit [simp]: "length (lit a) = length a"
  by (simp add: lit_def)

lemma lit_Nil [simp]: "lit [] = []"
  by (simp add: lit_def)

lemma lit_eq_Nil_iff [simp]: "lit a = [] \<longleftrightarrow> a = []"
  by (simp add: lit_def)

lemma Nil_eq_lit_iff [simp]: "[] = lit a \<longleftrightarrow> a = []"
  by (simp add: lit_def)

lemma split_from_not_Nil: "split_from cur s \<noteq> []"
  by (induction cur s rule: split_from.induct) auto

lemma split_ws_length_pos: "0 < length (split_ws s)"
  by (simp add: split_ws_def split_from_not_Nil)

section \<open>Stats engine: results\<close>

lemma spec_runs_all_ws: "\<forall>c \<in> set ys. isWhiteSpace c \<Longrightarrow> spec_runs p ys = 0"
  by (induction ys arbitrary: p) auto

lemma spec_runs_append_ws:
  "\<forall>c \<in> set ys. isWhiteSpace c \<Longrightarrow> spec_runs p (xs @ ys) = spec_runs p xs"
  by (induction xs arbitrary: p) (auto simp: spec_runs_all_ws)

lemma spec_runs_dropWhile: "spec_runs True (dropWhile isWhiteSpace xs) = spec_runs True xs"
  by (induction xs) auto

lemma rev_dropWhile_rev_split:
  "xs = rev (dropWhile P (rev xs)) @ rev (takeWhile P (rev xs))"
proof -
  have "rev xs = takeWhile P (rev xs) @ dropWhile P (rev xs)"
    by simp
  then have "rev (rev xs) = rev (takeWhile P (rev xs) @ dropWhile P (rev xs))"
    by (rule arg_cong)
  then show ?thesis
    by (simp only: rev_rev_ident rev_append)
qed

lemma spec_runs_trim: "spec_runs True (trim t) = spec_runs True t"
proof -
  let ?d = "dropWhile isWhiteSpace t"
  have ws: "\<forall>c \<in> set (rev (takeWhile isWhiteSpace (rev ?d))). isWhiteSpace c"
    by (auto dest: set_takeWhileD)
  have "spec_runs True ?d
      = spec_runs True (rev (dropWhile isWhiteSpace (rev ?d)) @ rev (takeWhile isWhiteSpace (rev ?d)))"
    using rev_dropWhile_rev_split [of ?d isWhiteSpace] by simp
  also have "\<dots> = spec_runs True (trim t)"
    using ws by (simp add: spec_runs_append_ws trim_def)
  finally show ?thesis
    by (simp add: spec_runs_dropWhile)
qed

lemma trim_ends:
  assumes "trim t \<noteq> []"
  shows "\<not> isWhiteSpace (hd (trim t))" and "\<not> isWhiteSpace (last (trim t))"
proof -
  let ?d = "dropWhile isWhiteSpace t"
  let ?r = "dropWhile isWhiteSpace (rev ?d)"
  from assms have r: "?r \<noteq> []"
    by (simp add: trim_def)
  then have "\<not> isWhiteSpace (hd ?r)"
    by (rule hd_dropWhile)
  then show "\<not> isWhiteSpace (last (trim t))"
    using r by (simp add: trim_def last_rev)
  from r have d: "?d \<noteq> []"
    by (metis dropWhile.simps(1) rev.simps(1))
  then have hd: "\<not> isWhiteSpace (hd ?d)"
    by (rule hd_dropWhile)
  have "?d = trim t @ rev (takeWhile isWhiteSpace (rev ?d))"
    using rev_dropWhile_rev_split [of ?d isWhiteSpace] by (simp add: trim_def)
  then have "hd ?d = hd (trim t)"
    using assms by (metis hd_append2)
  then show "\<not> isWhiteSpace (hd (trim t))"
    using hd by simp
qed

lemma split_from_length:
  "xs = [] \<or> \<not> isWhiteSpace (last xs) \<Longrightarrow> length (split_from cur xs) = Suc (spec_runs False xs)"
proof (induction cur xs rule: split_from.induct)
  case (1 cur)
  show ?case by simp
next
  case (2 cur c cs)
  show ?case
  proof (cases "isWhiteSpace c")
    case True
    let ?d = "dropWhile isWhiteSpace cs"
    from True "2.prems" have cs: "cs \<noteq> []" "\<not> isWhiteSpace (last cs)"
      by (auto split: if_splits)
    then have "last cs \<in> set cs"
      by simp
    with cs have d: "?d \<noteq> []"
      by auto
    have "cs = takeWhile isWhiteSpace cs @ ?d"
      by simp
    then have "last cs = last ?d"
      using d by (metis last_appendR)
    with cs have "\<not> isWhiteSpace (last ?d)"
      by simp
    with "2.IH"(1) [OF True] have ih: "length (split_from [] ?d) = Suc (spec_runs False ?d)"
      by simp
    from d have hd: "\<not> isWhiteSpace (hd ?d)"
      by (rule hd_dropWhile)
    from d obtain x d' where xd: "?d = x # d'"
      by (cases ?d) auto
    with hd have x: "\<not> isWhiteSpace x"
      by simp
    have "spec_runs True cs = spec_runs True ?d"
      by (simp add: spec_runs_dropWhile)
    also have "\<dots> = Suc (spec_runs False ?d)"
      using x by (simp add: xd)
    finally show ?thesis
      using True ih by simp
  next
    case False
    from "2.prems" have "cs = [] \<or> \<not> isWhiteSpace (last cs)"
      by (auto split: if_splits)
    with "2.IH"(2) [OF False] False show ?thesis
      by simp
  qed
qed

lemma computeStats_words_runs: "words (computeStats text) = spec_runs True text"
proof (cases "trim text = []")
  case True
  with spec_runs_trim [of "text"] have "spec_runs True text = 0"
    by simp
  with True show ?thesis
    by (simp add: computeStats_def)
next
  case False
  from trim_ends [OF False] have e: "\<not> isWhiteSpace (hd (trim text))" "\<not> isWhiteSpace (last (trim text))"
    by simp_all
  from False obtain x r where xr: "trim text = x # r"
    by (cases "trim text") auto
  have "length (split_ws (trim text)) = Suc (spec_runs False (trim text))"
    unfolding split_ws_def using e(2) by (intro split_from_length) simp
  also have "\<dots> = spec_runs True (trim text)"
    using e(1) by (simp add: xr)
  finally show ?thesis
    using False by (simp add: computeStats_def spec_runs_trim)
qed

text \<open>
  C3. For every text, \<open>computeStats\<close> returns as characters the length of the text, white
  space included; it returns 0 words if and only if the trimmed text is empty, and
  otherwise the number of segments of the trimmed text split on runs of white space.
  That number is the number of maximal runs of characters other than white space.
\<close>

theorem C3_computeStats:
  "chars (computeStats text) = length text
   \<and> (words (computeStats text) = 0 \<longleftrightarrow> trim text = [])
   \<and> (trim text \<noteq> [] \<longrightarrow> words (computeStats text) = length (split_ws (trim text)))
   \<and> words (computeStats text) = spec_runs True text"
proof -
  have "chars (computeStats text) = length text
   \<and> (words (computeStats text) = 0 \<longleftrightarrow> trim text = [])
   \<and> (trim text \<noteq> [] \<longrightarrow> words (computeStats text) = length (split_ws (trim text)))"
    using split_ws_length_pos [of "trim text"] by (simp add: computeStats_def)
  then show ?thesis
    using computeStats_words_runs [of "text"] by simp
qed

theorem C3_computeStats_witness:
  "trim (lit '' Hello  world '') \<noteq> []
   \<and> chars (computeStats (lit '' Hello  world '')) = 14
   \<and> words (computeStats (lit '' Hello  world '')) = 2"
proof -
  have t: "trim (lit '' Hello  world '') = lit ''Hello  world''"
    by code_simp
  have w: "split_ws (lit ''Hello  world'') = [lit ''Hello'', lit ''world'']"
    by code_simp
  show ?thesis
    using C3_computeStats [of "lit '' Hello  world ''"] by (simp add: t w)
qed

section \<open>AI assistance client: results\<close>

lemma getAI_missing:
  "API_KEY = None \<or> API_KEY = Some [] \<Longrightarrow> getAI API_KEY = Inl (Error (lit ''API Key not found''))"
  by (auto simp: getAI_def js_or_def)

lemma texts_of_simps:
  "texts_of [] = []"
  "texts_of (ch # chs) = (if js_or ch [] \<noteq> [] then js_or ch [] # texts_of chs else texts_of chs)"
  by (auto simp: texts_of_def js_or_def split: option.splits)

lemma for_await_quiet:
  assumes "\<And>c t. snd (onChunk c t) = None"
  shows "fst (for_await onChunk chunks c) = None
    \<and> fst (snd (for_await onChunk chunks c)) = texts_of chunks"
proof (induction chunks arbitrary: c)
  case Nil
  show ?case by (simp add: texts_of_simps)
next
  case (Cons ch chs)
  show ?case
  proof (cases "js_or ch [] \<noteq> []")
    case True
    obtain c' where c': "onChunk c (js_or ch []) = (c', None)"
      using assms [of c "js_or ch []"] by (cases "onChunk c (js_or ch [])") auto
    show ?thesis
      using True Cons.IH [of c'] by (simp add: c' texts_of_simps case_prod_beta)
  next
    case False
    then show ?thesis
      using Cons.IH [of c] by (simp add: texts_of_simps)
  qed
qed

lemma for_await_prefix:
  "\<exists>n \<le> length (texts_of chunks). fst (snd (for_await onChunk chunks c)) = take n (texts_of chunks)
     \<and> (fst (for_await onChunk chunks c) = None \<longrightarrow> n = length (texts_of chunks))"
proof (induction chunks arbitrary: c)
  case Nil
  show ?case by (simp add: texts_of_simps)
next
  case (Cons ch chs)
  show ?case
  proof (cases "js_or ch [] \<noteq> []")
    case False
    then have "for_await onChunk (ch # chs) c = for_await onChunk chs c"
      and "texts_of (ch # chs) = texts_of chs"
      by (simp_all add: texts_of_simps)
    then show ?thesis
      using Cons.IH [of c] by (simp only:)
  next
    case True
    then have tx: "texts_of (ch # chs) = js_or ch [] # texts_of chs"
      by (simp add: texts_of_simps)
    obtain c' thrown where oc: "onChunk c (js_or ch []) = (c', thrown)"
      by (cases "onChunk c (js_or ch [])")
    show ?thesis
    proof (cases thrown)
      case (Some e)
      have fa: "for_await onChunk (ch # chs) c = (Some e, [js_or ch []], c')"
        using True by (simp add: oc Some)
      show ?thesis
      proof (intro exI [of _ 1] conjI impI)
        show "1 \<le> length (texts_of (ch # chs))"
          by (simp add: tx)
        show "fst (snd (for_await onChunk (ch # chs) c)) = take 1 (texts_of (ch # chs))"
          by (simp only: fa tx) simp
        assume "fst (for_await onChunk (ch # chs) c) = None"
        then have False
          by (simp only: fa) simp
        then show "1 = length (texts_of (ch # chs))" ..
      qed
    next
      case None
      from Cons.IH [of c'] obtain n where n: "n \<le> length (texts_of chs)"
        "fst (snd (for_await onChunk chs c')) = take n (texts_of chs)"
        "fst (for_await onChunk chs c') = None \<longrightarrow> n = length (texts_of chs)"
        by (elim exE conjE)
      have fa: "for_await onChunk (ch # chs) c
          = (fst (for_await onChunk chs c'),
             js_or ch [] # fst (snd (for_await onChunk chs c')),
             snd (snd (for_await onChunk chs c')))"
        using True by (simp add: oc None case_prod_beta)
      show ?thesis
      proof (intro exI [of _ "Suc n"] conjI impI)
        show "Suc n \<le> length (texts_of (ch # chs))"
          using n(1) by (simp add: tx)
        show "fst (snd (for_await onChunk (ch # chs) c)) = take (Suc n) (texts_of (ch # chs))"
          using n(2) by (simp only: fa tx) simp
        assume "fst (for_await onChunk (ch # chs) c) = None"
        then have "fst (for_await onChunk chs c') = None"
          by (simp only: fa) simp
        with n(3) show "Suc n = length (texts_of (ch # chs))"
          by (simp add: tx)
      qed
    qed
  qed
qed

text \<open>
  C1, as the code has it. With no backend credential configured (the variable unset or
  empty) \<open>getAI\<close> raises the configuration error, and both entry points catch it: the
  single-shot entry point resolves with the apology string, and the streaming one calls
  \<open>onChunk\<close> exactly once, with the error chunk, and returns normally unless that call
  throws, in which case what \<open>onChunk\<close> threw reaches the caller. Neither reaches the
  backend.
\<close>

theorem C1_missing_credential_caught:
  assumes "API_KEY = None \<or> API_KEY = Some []"
  shows "getAI API_KEY = Inl (Error (lit ''API Key not found''))
    \<and> generateWritingAssistance API_KEY be prompt context m
        = \<lparr> settled = Inr apology, dispatched = [] \<rparr>
    \<and> streamWritingAssistance API_KEY be prompt context onChunk c
        = \<lparr> returned = (case snd (onChunk c error_chunk) of None \<Rightarrow> Inr () | Some e \<Rightarrow> Inl e),
            onChunk_calls = [error_chunk],
            callback_state = fst (onChunk c error_chunk),
            stream_dispatched = [] \<rparr>"
  using getAI_missing [OF assms]
  by (simp add: generateWritingAssistance_def generate_try_def
      streamWritingAssistance_def stream_try_def case_prod_beta)

theorem C1_missing_credential_caught_witness:
  "generateWritingAssistance None answering_backend (lit ''Shorten'') (lit ''x'') Custom
     = \<lparr> settled = Inr apology, dispatched = [] \<rparr>
   \<and> streamWritingAssistance None answering_backend (lit ''Shorten'') (lit ''x'') recording_callback []
     = \<lparr> returned = Inr (), onChunk_calls = [error_chunk], callback_state = [error_chunk],
         stream_dispatched = [] \<rparr>
   \<and> streamWritingAssistance None answering_backend (lit ''Shorten'') (lit ''x'')
       (throwing_on [error_chunk]) []
     = \<lparr> returned = Inl (Error (lit ''callback failed'')), onChunk_calls = [error_chunk],
         callback_state = [error_chunk], stream_dispatched = [] \<rparr>"
  using
    C1_missing_credential_caught
      [of None answering_backend "lit ''Shorten''" "lit ''x''" Custom recording_callback "[]"]
    C1_missing_credential_caught
      [of None answering_backend "lit ''Shorten''" "lit ''x''" Custom "throwing_on [error_chunk]" "[]"]
  by (simp add: recording_callback_def throwing_on_def)

text \<open>
  C1 as stated fails: with no credential the single-shot entry point does not raise the
  configuration error, it resolves with the apology string, and the streaming entry point
  returns normally after one call of \<open>onChunk\<close>.
\<close>

theorem C1_counterexample:
  "settled (generateWritingAssistance None answering_backend (lit ''Shorten'') (lit ''x'') Custom)
     \<noteq> Inl (Error (lit ''API Key not found''))
   \<and> settled (generateWritingAssistance None answering_backend (lit ''Shorten'') (lit ''x'') Custom)
     = Inr (lit ''Sorry, I encountered an error while processing your request.'')
   \<and> returned (streamWritingAssistance None answering_backend (lit ''Shorten'') (lit ''x'')
        recording_callback [])
     = Inr ()"
  by (simp add: generateWritingAssistance_def generate_try_def getAI_def js_or_def
      streamWritingAssistance_def stream_try_def apology_def recording_callback_def)


text \<open>
  C6. A single-shot call always resolves, it never rejects; when the backend call fails it
  resolves with the fixed apology string; when the backend succeeds with absent or empty
  text it resolves with the empty string.
\<close>

theorem C6_generate_never_raises:
  "(\<exists>t. settled (generateWritingAssistance API_KEY be prompt context m) = Inr t)
   \<and> (generateContent be (generate_request prompt context m) = Inl e
        \<longrightarrow> settled (generateWritingAssistance API_KEY be prompt context m) = Inr apology)
   \<and> (getAI API_KEY = Inr ai
        \<and> (generateContent be (generate_request prompt context m) = Inr None
           \<or> generateContent be (generate_request prompt context m) = Inr (Some []))
        \<longrightarrow> settled (generateWritingAssistance API_KEY be prompt context m) = Inr [])"
  by (auto simp: generateWritingAssistance_def generate_try_def Let_def js_or_def
      split: sum.splits option.splits)

theorem C6_generate_never_raises_witness:
  "generateContent failing_backend (generate_request (lit ''Shorten'') (lit ''x'') Custom)
     = Inl (Error (lit ''fetch failed''))
   \<and> settled (generateWritingAssistance (Some (lit ''k'')) failing_backend (lit ''Shorten'') (lit ''x'') Custom)
     = Inr (lit ''Sorry, I encountered an error while processing your request.'')
   \<and> getAI (Some (lit ''k'')) = Inr \<lparr> apiKey = lit ''k'' \<rparr>
   \<and> generateContent silent_backend (generate_request (lit ''Shorten'') (lit ''x'') Custom) = Inr None
   \<and> settled (generateWritingAssistance (Some (lit ''k'')) silent_backend (lit ''Shorten'') (lit ''x'') Custom)
     = Inr []"
proof -
  have f: "generateContent failing_backend (generate_request (lit ''Shorten'') (lit ''x'') Custom)
      = Inl (Error (lit ''fetch failed''))"
    by (simp add: failing_backend_def)
  have k: "getAI (Some (lit ''k'')) = Inr \<lparr> apiKey = lit ''k'' \<rparr>"
    by (simp add: getAI_def js_or_def)
  have n: "generateContent silent_backend (generate_request (lit ''Shorten'') (lit ''x'') Custom) = Inr None"
    by (simp add: silent_backend_def)
  show ?thesis
    using f k n
      C6_generate_never_raises [of "Some (lit ''k'')" failing_backend "lit ''Shorten''" "lit ''x''"
        Custom "Error (lit ''fetch failed'')"]
      C6_generate_never_raises [of "Some (lit ''k'')" silent_backend "lit ''Shorten''" "lit ''x''"
        Custom _ "\<lparr> apiKey = lit ''k'' \<rparr>"]
    by (simp add: apology_def)
qed

lemma stream_opened:
  assumes "getAI API_KEY = Inr ai"
    and "generateContentStream be (stream_request prompt context) = Inr (chunks, failure)"
  shows "stream_try API_KEY be prompt context onChunk c
    = \<lparr> returned =
          (case fst (for_await onChunk chunks c) of
             Some e \<Rightarrow> Inl e
           | None \<Rightarrow> (case failure of None \<Rightarrow> Inr () | Some e \<Rightarrow> Inl e)),
        onChunk_calls = fst (snd (for_await onChunk chunks c)),
        callback_state = snd (snd (for_await onChunk chunks c)),
        stream_dispatched = [stream_request prompt context] \<rparr>"
  using assms by (simp add: stream_try_def case_prod_beta)

lemma stream_calls:
  "onChunk_calls (streamWritingAssistance API_KEY be prompt context onChunk c)
     = onChunk_calls (stream_try API_KEY be prompt context onChunk c)
       @ (case returned (stream_try API_KEY be prompt context onChunk c) of
            Inl e \<Rightarrow> [error_chunk] | Inr u \<Rightarrow> [])"
  by (simp add: streamWritingAssistance_def Let_def case_prod_beta split: sum.splits)

lemma stream_returned:
  "returned (streamWritingAssistance API_KEY be prompt context onChunk c)
     = (case returned (stream_try API_KEY be prompt context onChunk c) of
          Inr u \<Rightarrow> Inr ()
        | Inl e \<Rightarrow>
            (case snd (onChunk (callback_state (stream_try API_KEY be prompt context onChunk c))
                         error_chunk) of
               None \<Rightarrow> Inr () | Some e' \<Rightarrow> Inl e'))"
  by (simp add: streamWritingAssistance_def Let_def case_prod_beta split: sum.splits)

lemma for_await_delivered:
  "fst (for_await onChunk chunks c) = None
   \<Longrightarrow> t \<in> set (fst (snd (for_await onChunk chunks c)))
   \<Longrightarrow> \<exists>c'. snd (onChunk c' t) = None"
proof (induction chunks arbitrary: c)
  case Nil
  then show ?case by simp
next
  case (Cons ch chs)
  show ?case
  proof (cases "js_or ch [] \<noteq> []")
    case False
    with Cons.prems Cons.IH [of c] show ?thesis
      by simp
  next
    case True
    obtain c' thrown where oc: "onChunk c (js_or ch []) = (c', thrown)"
      by (cases "onChunk c (js_or ch [])")
    show ?thesis
    proof (cases thrown)
      case (Some e)
      with Cons.prems(1) True oc show ?thesis
        by simp
    next
      case None
      have fa: "for_await onChunk (ch # chs) c
          = (fst (for_await onChunk chs c'),
             js_or ch [] # fst (snd (for_await onChunk chs c')),
             snd (snd (for_await onChunk chs c')))"
        using True by (simp add: oc None case_prod_beta)
      from Cons.prems(1) have th: "fst (for_await onChunk chs c') = None"
        by (simp only: fa) simp
      from Cons.prems(2) have "t = js_or ch [] \<or> t \<in> set (fst (snd (for_await onChunk chs c')))"
        by (simp only: fa) simp
      then show ?thesis
      proof
        assume "t = js_or ch []"
        with oc None have "snd (onChunk c t) = None"
          by simp
        then show ?thesis ..
      next
        assume "t \<in> set (fst (snd (for_await onChunk chs c')))"
        with th show ?thesis
          by (rule Cons.IH)
      qed
    qed
  qed
qed

lemma stream_try_calls_quiet:
  "returned (stream_try API_KEY be prompt context onChunk c) = Inr u
   \<Longrightarrow> t \<in> set (onChunk_calls (stream_try API_KEY be prompt context onChunk c))
   \<Longrightarrow> \<exists>c'. snd (onChunk c' t) = None"
  by (auto simp: stream_try_def Let_def case_prod_beta
      split: sum.splits option.splits prod.splits intro: for_await_delivered)

lemma stream_rejects:
  assumes "\<forall>c. snd (onChunk c error_chunk) = Some e'"
  shows "returned (streamWritingAssistance API_KEY be prompt context onChunk c) = Inl e'
    \<or> (returned (streamWritingAssistance API_KEY be prompt context onChunk c) = Inr ()
        \<and> error_chunk \<notin> set (onChunk_calls (streamWritingAssistance API_KEY be prompt context onChunk c)))"
proof (cases "returned (stream_try API_KEY be prompt context onChunk c)")
  case (Inl e)
  then show ?thesis
    using assms by (simp add: stream_returned)
next
  case (Inr u)
  have "error_chunk \<notin> set (onChunk_calls (stream_try API_KEY be prompt context onChunk c))"
  proof
    assume "error_chunk \<in> set (onChunk_calls (stream_try API_KEY be prompt context onChunk c))"
    with Inr have "\<exists>c'. snd (onChunk c' error_chunk) = None"
      by (rule stream_try_calls_quiet)
    with assms show False
      by simp
  qed
  with Inr show ?thesis
    by (simp add: stream_returned stream_calls)
qed

text \<open>
  C5, as the code has it. With a credential configured and the stream opened, \<open>onChunk\<close>
  is called only for received chunks that carry a non-empty text, in the order of
  arrival: the calls are an initial segment of those texts, followed either by nothing,
  and then the stream has ended, every text has been delivered and the function returns
  normally, or by exactly one call with the error chunk, after which nothing is emitted.
  When \<open>onChunk\<close> never throws, every text is delivered, the error chunk follows exactly
  when the stream has failed, and the function returns normally whatever happens. If the
  stream cannot be opened the error chunk is the only call. An exception reaches the
  caller only when \<open>onChunk\<close> throws on the error chunk; and when \<open>onChunk\<close> throws on
  the error chunk whatever its state, every run that emits the error chunk rejects with
  what \<open>onChunk\<close> threw.
\<close>

theorem C5_stream_delivery:
  "(getAI API_KEY = Inr ai
      \<and> generateContentStream be (stream_request prompt context) = Inr (chunks, failure)
    \<longrightarrow> (onChunk_calls (streamWritingAssistance API_KEY be prompt context onChunk c)
            = texts_of chunks
          \<and> failure = None
          \<and> returned (streamWritingAssistance API_KEY be prompt context onChunk c) = Inr ())
        \<or> (\<exists>n \<le> length (texts_of chunks).
              onChunk_calls (streamWritingAssistance API_KEY be prompt context onChunk c)
                = take n (texts_of chunks) @ [error_chunk]))
   \<and> (getAI API_KEY = Inr ai
        \<and> generateContentStream be (stream_request prompt context) = Inr (chunks, failure)
        \<and> (\<forall>c t. snd (onChunk c t) = None)
      \<longrightarrow> onChunk_calls (streamWritingAssistance API_KEY be prompt context onChunk c)
           = texts_of chunks @ (case failure of None \<Rightarrow> [] | Some e \<Rightarrow> [error_chunk]))
   \<and> (getAI API_KEY = Inr ai
        \<and> generateContentStream be (stream_request prompt context) = Inl e
      \<longrightarrow> onChunk_calls (streamWritingAssistance API_KEY be prompt context onChunk c)
           = [error_chunk])
   \<and> ((\<forall>c t. snd (onChunk c t) = None)
      \<longrightarrow> returned (streamWritingAssistance API_KEY be prompt context onChunk c) = Inr ())
   \<and> (returned (streamWritingAssistance API_KEY be prompt context onChunk c) = Inl e'
      \<longrightarrow> (\<exists>c'. snd (onChunk c' error_chunk) = Some e'))
   \<and> ((\<forall>c. snd (onChunk c error_chunk) = Some e'')
      \<longrightarrow> returned (streamWritingAssistance API_KEY be prompt context onChunk c) = Inl e''
          \<or> (returned (streamWritingAssistance API_KEY be prompt context onChunk c) = Inr ()
              \<and> error_chunk \<notin> set (onChunk_calls
                    (streamWritingAssistance API_KEY be prompt context onChunk c))))"
proof -
  let ?R = "streamWritingAssistance API_KEY be prompt context onChunk c"
  let ?T = "stream_try API_KEY be prompt context onChunk c"
  have A: "(onChunk_calls ?R = texts_of chunks \<and> failure = None \<and> returned ?R = Inr ())
        \<or> (\<exists>n \<le> length (texts_of chunks). onChunk_calls ?R = take n (texts_of chunks) @ [error_chunk])"
    if k: "getAI API_KEY = Inr ai"
      and o: "generateContentStream be (stream_request prompt context) = Inr (chunks, failure)"
  proof -
    note t = stream_opened [OF k o, of onChunk c]
    from for_await_prefix [where chunks = chunks and onChunk = onChunk and c = c] obtain n where
      n: "n \<le> length (texts_of chunks)"
        "fst (snd (for_await onChunk chunks c)) = take n (texts_of chunks)"
        "fst (for_await onChunk chunks c) = None \<longrightarrow> n = length (texts_of chunks)"
      by (elim exE conjE)
    show ?thesis
    proof (cases "returned ?T")
      case (Inl x)
      then have "onChunk_calls ?R = take n (texts_of chunks) @ [error_chunk]"
        using n(2) by (simp add: stream_calls) (simp add: t)
      with n(1) show ?thesis
        by blast
    next
      case (Inr u)
      then have th: "fst (for_await onChunk chunks c) = None" and f: "failure = None"
        by (auto simp: t split: option.splits)
      from th n(2,3) have "fst (snd (for_await onChunk chunks c)) = texts_of chunks"
        by simp
      with Inr f show ?thesis
        by (simp add: stream_calls stream_returned) (simp add: t)
    qed
  qed
  have B: "onChunk_calls ?R
      = texts_of chunks @ (case failure of None \<Rightarrow> [] | Some e \<Rightarrow> [error_chunk])"
    if k: "getAI API_KEY = Inr ai"
      and o: "generateContentStream be (stream_request prompt context) = Inr (chunks, failure)"
      and q: "\<forall>c t. snd (onChunk c t) = None"
  proof -
    note t = stream_opened [OF k o, of onChunk c]
    from q have "\<And>c t. snd (onChunk c t) = None"
      by simp
    from for_await_quiet [where onChunk = onChunk and chunks = chunks and c = c, OF this] show ?thesis
      by (simp add: stream_calls t split: option.splits)
  qed
  have C: "onChunk_calls ?R = [error_chunk]"
    if "getAI API_KEY = Inr ai"
      and "generateContentStream be (stream_request prompt context) = Inl e"
    using that by (simp add: stream_calls stream_try_def)
  have D: "returned ?R = Inr ()" if "\<forall>c t. snd (onChunk c t) = None"
    using that by (simp add: stream_returned split: sum.splits)
  have E: "\<exists>c'. snd (onChunk c' error_chunk) = Some e'" if "returned ?R = Inl e'"
    using that by (auto simp: stream_returned split: sum.splits option.splits)
  have F: "returned ?R = Inl e'' \<or> (returned ?R = Inr () \<and> error_chunk \<notin> set (onChunk_calls ?R))"
    if "\<forall>c. snd (onChunk c error_chunk) = Some e''"
    using that by (rule stream_rejects)
  have ABC: "(getAI API_KEY = Inr ai
      \<and> generateContentStream be (stream_request prompt context) = Inr (chunks, failure)
    \<longrightarrow> (onChunk_calls ?R = texts_of chunks \<and> failure = None \<and> returned ?R = Inr ())
        \<or> (\<exists>n \<le> length (texts_of chunks).
              onChunk_calls ?R = take n (texts_of chunks) @ [error_chunk]))
   \<and> (getAI API_KEY = Inr ai
        \<and> generateContentStream be (stream_request prompt context) = Inr (chunks, failure)
        \<and> (\<forall>c t. snd (onChunk c t) = None)
      \<longrightarrow> onChunk_calls ?R
           = texts_of chunks @ (case failure of None \<Rightarrow> [] | Some e \<Rightarrow> [error_chunk]))
   \<and> (getAI API_KEY = Inr ai
        \<and> generateContentStream be (stream_request prompt context) = Inl e
      \<longrightarrow> onChunk_calls ?R = [error_chunk])"
    using A B C by blast
  have DEF: "((\<forall>c t. snd (onChunk c t) = None) \<longrightarrow> returned ?R = Inr ())
   \<and> (returned ?R = Inl e' \<longrightarrow> (\<exists>c'. snd (onChunk c' error_chunk) = Some e'))
   \<and> ((\<forall>c. snd (onChunk c error_chunk) = Some e'')
      \<longrightarrow> returned ?R = Inl e'' \<or> (returned ?R = Inr () \<and> error_chunk \<notin> set (onChunk_calls ?R)))"
    using D E F by blast
  from ABC DEF show ?thesis
    by simp
qed

theorem C5_stream_delivery_witness:
  "getAI (Some (lit ''k'')) = Inr \<lparr> apiKey = lit ''k'' \<rparr>
   \<and> generateContentStream failing_backend (stream_request (lit ''Tell'') (lit ''x''))
     = Inr ([Some (lit ''Once''), Some (lit '' upon'')], Some (Error (lit ''reset'')))
   \<and> onChunk_calls (streamWritingAssistance (Some (lit ''k'')) failing_backend (lit ''Tell'')
        (lit ''x'') recording_callback [])
     = [lit ''Once'', lit '' upon'', lit ''[Error: Failed to generate content]'']
   \<and> returned (streamWritingAssistance (Some (lit ''k'')) failing_backend (lit ''Tell'')
        (lit ''x'') recording_callback [])
     = Inr ()
   \<and> generateContentStream silent_backend (stream_request (lit ''Tell'') (lit ''x''))
     = Inl (Error (lit ''unavailable''))
   \<and> onChunk_calls (streamWritingAssistance (Some (lit ''k'')) silent_backend (lit ''Tell'')
        (lit ''x'') recording_callback [])
     = [lit ''[Error: Failed to generate content]'']
   \<and> streamWritingAssistance (Some (lit ''k'')) answering_backend (lit ''Tell'') (lit ''x'')
       (throwing_on [lit ''Once'']) []
     = \<lparr> returned = Inr (),
         onChunk_calls = [lit ''Once'', lit ''[Error: Failed to generate content]''],
         callback_state = [lit ''Once'', lit ''[Error: Failed to generate content]''],
         stream_dispatched = [stream_request (lit ''Tell'') (lit ''x'')] \<rparr>
   \<and> returned (streamWritingAssistance (Some (lit ''k'')) answering_backend (lit ''Tell'') (lit ''x'')
       (throwing_on [lit ''Once'', error_chunk]) [])
     = Inl (Error (lit ''callback failed''))"
proof -
  have k: "getAI (Some (lit ''k'')) = Inr \<lparr> apiKey = lit ''k'' \<rparr>"
    by (simp add: getAI_def js_or_def)
  have f: "generateContentStream failing_backend (stream_request (lit ''Tell'') (lit ''x''))
     = Inr ([Some (lit ''Once''), Some (lit '' upon'')], Some (Error (lit ''reset'')))"
    by (simp add: failing_backend_def)
  have n: "generateContentStream silent_backend (stream_request (lit ''Tell'') (lit ''x''))
     = Inl (Error (lit ''unavailable''))"
    by (simp add: silent_backend_def)
  have q: "\<forall>c t. snd (recording_callback c t) = None"
    by (simp add: recording_callback_def)
  have tx: "texts_of [Some (lit ''Once''), Some (lit '' upon'')] = [lit ''Once'', lit '' upon'']"
    by (simp add: texts_of_simps js_or_def)
  have t1: "streamWritingAssistance (Some (lit ''k'')) answering_backend (lit ''Tell'') (lit ''x'')
       (throwing_on [lit ''Once'']) []
     = \<lparr> returned = Inr (),
         onChunk_calls = [lit ''Once'', lit ''[Error: Failed to generate content]''],
         callback_state = [lit ''Once'', lit ''[Error: Failed to generate content]''],
         stream_dispatched = [stream_request (lit ''Tell'') (lit ''x'')] \<rparr>"
    by (simp add: streamWritingAssistance_def stream_try_def k answering_backend_def
        throwing_on_def js_or_def error_chunk_def)
  have t2: "returned (streamWritingAssistance (Some (lit ''k'')) answering_backend (lit ''Tell'') (lit ''x'')
       (throwing_on [lit ''Once'', error_chunk]) [])
     = Inl (Error (lit ''callback failed''))"
    by (simp add: streamWritingAssistance_def stream_try_def k answering_backend_def
        throwing_on_def js_or_def error_chunk_def)
  show ?thesis
    using k f n q t1 t2
      C5_stream_delivery [of "Some (lit ''k'')" "\<lparr> apiKey = lit ''k'' \<rparr>" failing_backend
        "lit ''Tell''" "lit ''x''" "[Some (lit ''Once''), Some (lit '' upon'')]"
        "Some (Error (lit ''reset''))" recording_callback "[]"]
      C5_stream_delivery [of "Some (lit ''k'')" "\<lparr> apiKey = lit ''k'' \<rparr>" silent_backend
        "lit ''Tell''" "lit ''x''" _ _ recording_callback "[]" "Error (lit ''unavailable'')"]
    by (simp add: error_chunk_def tx)
qed

text \<open>
  C5 as stated fails: of three chunks received, the second without text, \<open>onChunk\<close> is
  called for two only; and when the stream fails and \<open>onChunk\<close> throws on the error
  chunk, the promise rejects.
\<close>

theorem C5_counterexample:
  "generateContentStream answering_backend (stream_request (lit ''Tell'') (lit ''x''))
     = Inr ([Some (lit ''Once''), None, Some (lit '' upon'')], None)
   \<and> onChunk_calls (streamWritingAssistance (Some (lit ''k'')) answering_backend (lit ''Tell'')
        (lit ''x'') recording_callback [])
     = [lit ''Once'', lit '' upon'']
   \<and> length (onChunk_calls
        (streamWritingAssistance (Some (lit ''k'')) answering_backend (lit ''Tell'') (lit ''x'')
           recording_callback []))
     \<noteq> length [Some (lit ''Once''), None, Some (lit '' upon'')]
   \<and> generateContentStream failing_backend (stream_request (lit ''Tell'') (lit ''x''))
     = Inr ([Some (lit ''Once''), Some (lit '' upon'')], Some (Error (lit ''reset'')))
   \<and> returned (streamWritingAssistance (Some (lit ''k'')) failing_backend (lit ''Tell'')
        (lit ''x'') (throwing_on [error_chunk]) [])
     = Inl (Error (lit ''callback failed''))"
  by (simp add: streamWritingAssistance_def stream_try_def getAI_def js_or_def
      answering_backend_def failing_backend_def recording_callback_def throwing_on_def
      error_chunk_def)

section \<open>Assistance session controller: results\<close>

lemma promptToSend_not_empty: "m \<noteq> Continue \<or> prompt \<noteq> [] \<Longrightarrow> promptToSend prompt m \<noteq> []"
  by (cases m) (auto simp: promptToSend_def)

lemma dispatched_configured:
  "getAI API_KEY = Inr ai \<Longrightarrow>
   dispatched (generateWritingAssistance API_KEY be prompt context m)
     = [generate_request prompt context m]"
  by (auto simp: generateWritingAssistance_def generate_try_def Let_def split: sum.splits)

text \<open>
  C4, as the code has it. The guard is the controller's: \<open>handleAiRequest\<close> with an empty
  prompt field and mode \<open>continue\<close> returns at once, the state unchanged and nothing
  dispatched. The single-shot entry point has no such guard: called with an empty prompt
  and mode \<open>continue\<close> while a credential is configured, it sends the request.
\<close>

theorem C4_empty_continue_guard:
  "(aiPrompt s = [] \<longrightarrow> handleAiRequest API_KEY be Continue s = (s, []))
   \<and> (getAI API_KEY = Inr ai \<longrightarrow>
        dispatched (generateWritingAssistance API_KEY be [] context Continue)
          = [generate_request [] context Continue])"
  by (simp add: handleAiRequest_def dispatched_configured)

theorem C4_empty_continue_guard_witness:
  "aiPrompt draft_app = []
   \<and> handleAiRequest (Some (lit ''k'')) answering_backend Continue draft_app = (draft_app, [])
   \<and> getAI (Some (lit ''k'')) = Inr \<lparr> apiKey = lit ''k'' \<rparr>
   \<and> dispatched (generateWritingAssistance (Some (lit ''k'')) answering_backend [] (lit ''x'') Continue)
     = [generate_request [] (lit ''x'') Continue]"
proof -
  have p: "aiPrompt draft_app = []"
    by (simp add: draft_app_def)
  have k: "getAI (Some (lit ''k'')) = Inr \<lparr> apiKey = lit ''k'' \<rparr>"
    by (simp add: getAI_def js_or_def)
  show ?thesis
    using p k
      C4_empty_continue_guard [of draft_app "Some (lit ''k'')" answering_backend
        "\<lparr> apiKey = lit ''k'' \<rparr>" "lit ''x''"]
    by simp
qed

text \<open>
  C4 as stated fails: the single-shot entry point called with an empty prompt, the
  context \<open>x\<close> and mode \<open>continue\<close> sends one request to the backend.
\<close>

theorem C4_counterexample:
  "dispatched (generateWritingAssistance (Some (lit ''k'')) answering_backend [] (lit ''x'') Continue)
     = [generate_request [] (lit ''x'') Continue]
   \<and> dispatched (generateWritingAssistance (Some (lit ''k'')) answering_backend [] (lit ''x'') Continue)
     \<noteq> []
   \<and> settled (generateWritingAssistance (Some (lit ''k'')) answering_backend [] (lit ''x'') Continue)
     = Inr (lit ''Draft text.'')"
  by (simp add: generateWritingAssistance_def generate_try_def getAI_def js_or_def
      answering_backend_def Let_def)

lemma handleAiRequest_dispatched:
  "\<not> (aiPrompt s = [] \<and> m = Continue) \<Longrightarrow>
   snd (handleAiRequest API_KEY be m s)
     = dispatched (generateWritingAssistance API_KEY be (promptToSend (aiPrompt s) m)
         (capture_context s) m)"
  by (auto simp: handleAiRequest_def Let_def)

lemma dispatched_missing:
  "API_KEY = None \<or> API_KEY = Some [] \<Longrightarrow>
   dispatched (generateWritingAssistance API_KEY be prompt context m) = []"
  using getAI_missing [of API_KEY]
  by (simp add: generateWritingAssistance_def generate_try_def)

text \<open>
  C8, as the code has it. For every submit with an empty prompt field and a mode other
  than \<open>continue\<close>, the instruction derived from the mode is not empty. With a credential
  configured, exactly one request reaches the backend: its task is the canned instruction
  of the mode (one for each of \<open>summarize\<close>, \<open>fix\<close>, \<open>tone\<close> and \<open>custom\<close>) and its system
  instruction is the preamble followed by the profile of the mode. With no credential
  configured nothing reaches the backend.
\<close>

theorem C8_canned_instruction:
  assumes "aiPrompt s = []" and "m \<noteq> Continue"
  shows "promptToSend (aiPrompt s) m \<noteq> []
    \<and> (getAI API_KEY = Inr ai \<and> m = Summarize \<longrightarrow>
          snd (handleAiRequest API_KEY be m s) =
            [\<lparr> model = lit ''gemini-2.5-flash'',
               contents = lit ''Context/Current Text: '' @ [0x22] @ capture_context s
                 @ [0x22, 0x0A, 0x0A] @ lit ''Task: Summarize this text concisely.'',
               systemInstruction = lit ''You are a helpful writing assistant integrated into a document editor. Provide a concise summary of the provided text.'',
               temperature = Some (7 / 10) \<rparr>])
    \<and> (getAI API_KEY = Inr ai \<and> m = Fix \<longrightarrow>
          snd (handleAiRequest API_KEY be m s) =
            [\<lparr> model = lit ''gemini-2.5-flash'',
               contents = lit ''Context/Current Text: '' @ [0x22] @ capture_context s
                 @ [0x22, 0x0A, 0x0A] @ lit ''Task: Fix grammar, spelling, and punctuation errors.'',
               systemInstruction = lit ''You are a helpful writing assistant integrated into a document editor. Fix grammar and spelling errors in the provided text without changing the meaning.'',
               temperature = Some (7 / 10) \<rparr>])
    \<and> (getAI API_KEY = Inr ai \<and> m = Tone \<longrightarrow>
          snd (handleAiRequest API_KEY be m s) =
            [\<lparr> model = lit ''gemini-2.5-flash'',
               contents = lit ''Context/Current Text: '' @ [0x22] @ capture_context s
                 @ [0x22, 0x0A, 0x0A] @ lit ''Task: Rewrite this to sound more professional and concise.'',
               systemInstruction = lit ''You are a helpful writing assistant integrated into a document editor. Rewrite the text to be more professional and concise.'',
               temperature = Some (7 / 10) \<rparr>])
    \<and> (getAI API_KEY = Inr ai \<and> m = Custom \<longrightarrow>
          snd (handleAiRequest API_KEY be m s) =
            [\<lparr> model = lit ''gemini-2.5-flash'',
               contents = lit ''Context/Current Text: '' @ [0x22] @ capture_context s
                 @ [0x22, 0x0A, 0x0A] @ lit ''Task: Help me write.'',
               systemInstruction = lit ''You are a helpful writing assistant integrated into a document editor. Follow the user's specific instructions for the provided text.'',
               temperature = Some (7 / 10) \<rparr>])
    \<and> (API_KEY = None \<or> API_KEY = Some [] \<longrightarrow> snd (handleAiRequest API_KEY be m s) = [])"
proof -
  have g: "\<not> (aiPrompt s = [] \<and> m = Continue)"
    using assms(2) by simp
  have 1: "promptToSend (aiPrompt s) m \<noteq> []"
    using assms(2) by (simp add: promptToSend_not_empty)
  have d: "snd (handleAiRequest API_KEY be m s)
      = [generate_request (promptToSend [] m) (capture_context s) m]"
    if "getAI API_KEY = Inr ai"
    using that assms(1) by (simp add: handleAiRequest_dispatched [OF g] dispatched_configured)
  have r: "generate_request (promptToSend [] Summarize) ctx Summarize =
            \<lparr> model = lit ''gemini-2.5-flash'',
               contents = lit ''Context/Current Text: '' @ [0x22] @ ctx
                 @ [0x22, 0x0A, 0x0A] @ lit ''Task: Summarize this text concisely.'',
               systemInstruction = lit ''You are a helpful writing assistant integrated into a document editor. Provide a concise summary of the provided text.'',
               temperature = Some (7 / 10) \<rparr>"
    "generate_request (promptToSend [] Fix) ctx Fix =
            \<lparr> model = lit ''gemini-2.5-flash'',
               contents = lit ''Context/Current Text: '' @ [0x22] @ ctx
                 @ [0x22, 0x0A, 0x0A] @ lit ''Task: Fix grammar, spelling, and punctuation errors.'',
               systemInstruction = lit ''You are a helpful writing assistant integrated into a document editor. Fix grammar and spelling errors in the provided text without changing the meaning.'',
               temperature = Some (7 / 10) \<rparr>"
    "generate_request (promptToSend [] Tone) ctx Tone =
            \<lparr> model = lit ''gemini-2.5-flash'',
               contents = lit ''Context/Current Text: '' @ [0x22] @ ctx
                 @ [0x22, 0x0A, 0x0A] @ lit ''Task: Rewrite this to sound more professional and concise.'',
               systemInstruction = lit ''You are a helpful writing assistant integrated into a document editor. Rewrite the text to be more professional and concise.'',
               temperature = Some (7 / 10) \<rparr>"
    "generate_request (promptToSend [] Custom) ctx Custom =
            \<lparr> model = lit ''gemini-2.5-flash'',
               contents = lit ''Context/Current Text: '' @ [0x22] @ ctx
                 @ [0x22, 0x0A, 0x0A] @ lit ''Task: Help me write.'',
               systemInstruction = lit ''You are a helpful writing assistant integrated into a document editor. Follow the user's specific instructions for the provided text.'',
               temperature = Some (7 / 10) \<rparr>"
    for ctx
    by (simp_all add: generate_request_def promptToSend_def instruction_of_def lit_def)
  have 6: "snd (handleAiRequest API_KEY be m s) = []" if "API_KEY = None \<or> API_KEY = Some []"
    using that by (simp add: handleAiRequest_dispatched [OF g] dispatched_missing)
  show ?thesis
    using 1 d 6 by (auto simp: r)
qed

theorem C8_canned_instruction_witness:
  "aiPrompt draft_app = [] \<and> Fix \<noteq> Continue
   \<and> getAI (Some (lit ''k'')) = Inr \<lparr> apiKey = lit ''k'' \<rparr>
   \<and> map contents (snd (handleAiRequest (Some (lit ''k'')) answering_backend Fix draft_app))
     = [lit ''Context/Current Text: '' @ [0x22] @ lit ''draft text'' @ [0x22, 0x0A, 0x0A]
        @ lit ''Task: Fix grammar, spelling, and punctuation errors.'']
   \<and> snd (handleAiRequest None answering_backend Fix draft_app) = []"
proof -
  have p: "aiPrompt draft_app = []"
    by (simp add: draft_app_def)
  have k: "getAI (Some (lit ''k'')) = Inr \<lparr> apiKey = lit ''k'' \<rparr>"
    by (simp add: getAI_def js_or_def)
  have c: "capture_context draft_app = lit ''draft text''"
    by (simp add: capture_context_def draft_app_def js_or_def)
  have m: "Fix \<noteq> Continue"
    by simp
  show ?thesis
    using p k
      C8_canned_instruction [OF p m, of "Some (lit ''k'')" "\<lparr> apiKey = lit ''k'' \<rparr>" answering_backend]
      C8_canned_instruction [OF p m, of None _ answering_backend]
    by (simp add: c)
qed

text \<open>
  C8 as stated fails: with no credential configured, a \<open>summarize\<close> submit with an empty
  prompt field sends nothing to the backend.
\<close>

theorem C8_counterexample:
  "aiPrompt draft_app = [] \<and> Summarize \<noteq> Continue
   \<and> snd (handleAiRequest None answering_backend Summarize draft_app) = []"
  by (simp add: draft_app_def handleAiRequest_def Let_def generateWritingAssistance_def
      generate_try_def getAI_def js_or_def)

section \<open>Autosave scheduler: results\<close>

lemma advance_idle:
  "next_due (now s + dt) (timers s) = None \<Longrightarrow> advance dt s = s\<lparr> now := now s + dt \<rparr>"
  by (subst advance.simps) simp

lemma fire_timers: "timers (fire t s) = remove1 t (timers s)"
  by (simp add: fire_def save_callback_def setItem_def split: option.splits)

lemma fire_now: "now (fire t s) = max (now s) (due t)"
  by (simp add: fire_def save_callback_def setItem_def split: option.splits)

lemma advance_fire_single:
  assumes "timers s = [t]" and "due t \<le> now s + dt"
  shows "advance dt s = (fire t s)\<lparr> now := now s + dt \<rparr>"
proof -
  have nd: "next_due (now s + dt) (timers s) = Some t"
    using assms by (simp add: next_due_def)
  have idle: "next_due lim (timers (fire t s)) = None" for lim
    using assms by (simp add: fire_timers next_due_def)
  have "advance dt s = advance (now s + dt - max (now s) (due t)) (fire t s)"
    by (subst advance.simps) (simp add: nd)
  also have "\<dots> = (fire t s)\<lparr> now := now (fire t s) + (now s + dt - max (now s) (due t)) \<rparr>"
    by (rule advance_idle) (rule idle)
  also have "now (fire t s) + (now s + dt - max (now s) (due t)) = now s + dt"
    using assms(2) by (simp add: fire_now max_def)
  finally show ?thesis .
qed

lemma handleInput_timer:
  assumes "timer_inv s"
  shows "timers (handleInput s) = [\<lparr> tid = next_timer s, due = now s + 1000, saved_title = title s \<rparr>]"
    and "saveTimeoutRef (handleInput s) = Some (next_timer s)"
  using assms
  by (auto simp: handleInput_def timer_inv_def updateStats_def clearTimeout_def setTimeout_def
      Let_def split: option.splits list.splits)

lemma handleInput_frame:
  "setItem_log (handleInput s) = setItem_log s"
  "localStorage (handleInput s) = localStorage s"
  "now (handleInput s) = now s"
  "title (handleInput s) = title s"
  "editorRef (handleInput s) = editorRef s"
  "isSaving (handleInput s)"
  "next_timer (handleInput s) = Suc (next_timer s)"
  "aiPrompt (handleInput s) = aiPrompt s"
  "aiResponse (handleInput s) = aiResponse s"
  "aiLoading (handleInput s) = aiLoading s"
  "showAiModal (handleInput s) = showAiModal s"
  by (auto simp: handleInput_def updateStats_def clearTimeout_def setTimeout_def
      Let_def split: option.splits)

lemma pending_saveD:
  "pending_save T s \<Longrightarrow> \<exists>i. timers s = [\<lparr> tid = i, due = now s + 1000, saved_title = T \<rparr>]
      \<and> saveTimeoutRef s = Some i"
  by (auto simp: pending_save_def split: list.splits)

lemma pending_save_inv: "pending_save T s \<Longrightarrow> timer_inv s"
  by (auto simp: pending_save_def timer_inv_def split: list.splits)

lemma timer_inv_frame:
  "timer_inv s \<Longrightarrow> timers s' = timers s \<Longrightarrow> saveTimeoutRef s' = saveTimeoutRef s \<Longrightarrow> timer_inv s'"
  by (simp add: timer_inv_def split: list.splits)

lemma handleInput_pending: "timer_inv s \<Longrightarrow> pending_save (title s) (handleInput s)"
  by (simp add: pending_save_def handleInput_timer handleInput_frame)

lemma input_event_pending:
  assumes "timer_inv s" and "editorRef s \<noteq> None"
  shows "pending_save (title s) (input_event e s)"
    and "editorRef (input_event e s) = Some e"
    and "setItem_log (input_event e s) = setItem_log s"
    and "title (input_event e s) = title s"
proof -
  let ?s = "s\<lparr> editorRef := map_option (\<lambda>_. e) (editorRef s) \<rparr>"
  have "timer_inv ?s"
    using assms(1) by (rule timer_inv_frame) simp_all
  from handleInput_pending [OF this]
  show "pending_save (title s) (input_event e s)"
    by (simp add: input_event_def)
  show "editorRef (input_event e s) = Some e"
    using assms(2) by (auto simp: input_event_def handleInput_frame)
  show "setItem_log (input_event e s) = setItem_log s"
    by (simp add: input_event_def handleInput_frame)
  show "title (input_event e s) = title s"
    by (simp add: input_event_def handleInput_frame)
qed

lemma advance_pending_short:
  assumes "pending_save T s" and "gap < 1000"
  shows "advance gap s = s\<lparr> now := now s + gap \<rparr>"
proof -
  from pending_saveD [OF assms(1)] obtain i where
    "timers s = [\<lparr> tid = i, due = now s + 1000, saved_title = T \<rparr>]"
    by blast
  then have "next_due (now s + gap) (timers s) = None"
    using assms(2) by (simp add: next_due_def)
  then show ?thesis
    by (rule advance_idle)
qed

lemma burst_pending:
  assumes "\<forall>ge \<in> set rest. fst ge < 1000"
    and "pending_save T s" and "editorRef s = Some e" and "title s = T"
  shows "pending_save T (burst rest s)
    \<and> editorRef (burst rest s) = Some (last (e # map snd rest))
    \<and> setItem_log (burst rest s) = setItem_log s
    \<and> title (burst rest s) = T"
  using assms
proof (induction rest arbitrary: s e)
  case Nil
  then show ?case by simp
next
  case (Cons ge rest)
  obtain gap e' where ge: "ge = (gap, e')"
    by (cases ge)
  from Cons.prems(1) ge have gap: "gap < 1000"
    by simp
  let ?a = "s\<lparr> now := now s + gap \<rparr>"
  have adv: "advance gap s = ?a"
    using Cons.prems(2) gap by (rule advance_pending_short)
  have inv: "timer_inv ?a"
    using pending_save_inv [OF Cons.prems(2)] by (rule timer_inv_frame) simp_all
  have mounted: "editorRef ?a \<noteq> None"
    using Cons.prems(3) by simp
  note ie = input_event_pending [OF inv mounted, of e']
  have "pending_save T (burst rest (input_event e' ?a))
    \<and> editorRef (burst rest (input_event e' ?a)) = Some (last (e' # map snd rest))
    \<and> setItem_log (burst rest (input_event e' ?a)) = setItem_log (input_event e' ?a)
    \<and> title (burst rest (input_event e' ?a)) = T"
  proof (rule Cons.IH)
    show "\<forall>ge \<in> set rest. fst ge < 1000"
      using Cons.prems(1) by simp
    show "pending_save T (input_event e' ?a)"
      using ie(1) Cons.prems(4) by simp
    show "editorRef (input_event e' ?a) = Some e'"
      by (rule ie(2))
    show "title (input_event e' ?a) = T"
      using ie(4) Cons.prems(4) by simp
  qed
  then show ?case
    using ie(3) by (simp add: ge adv)
qed

lemma advance_save:
  assumes "timers s = [t]" and "due t \<le> now s + w" and "editorRef s = Some e"
  shows "setItem_log (advance w s)
      = setItem_log s @ [(content_key, innerHTML e), (title_key, saved_title t)]"
    and "localStorage (advance w s)
      = (localStorage s)(content_key \<mapsto> innerHTML e, title_key \<mapsto> saved_title t)"
    and "timers (advance w s) = []"
    and "\<not> isSaving (advance w s)"
    and "title (advance w s) = title s"
    and "now (advance w s) = now s + w"
    and "editorRef (advance w s) = Some e"
  using assms(1,3)
  by (simp_all add: advance_fire_single [OF assms(1,2)] fire_def save_callback_def setItem_def)

text \<open>
  The debounce invariant holds as long as the application runs: every operation of the
  model preserves it. \<open>format\<close> is an edit event like any other.
\<close>

lemma format_is_input_event:
  "editorRef s = Some e \<Longrightarrow> format exec command v s = input_event (exec command v e) s"
  by (simp add: format_def input_event_def)

lemma timer_inv_handleInput: "timer_inv s \<Longrightarrow> timer_inv (handleInput s)"
  by (rule pending_save_inv) (rule handleInput_pending)

lemma timer_inv_input_event: "timer_inv s \<Longrightarrow> timer_inv (input_event e s)"
  unfolding input_event_def
  by (rule timer_inv_handleInput) (erule timer_inv_frame; simp)

lemma timer_inv_format: "timer_inv s \<Longrightarrow> timer_inv (format exec command v s)"
  unfolding format_def
  by (rule timer_inv_handleInput) (erule timer_inv_frame; simp)

lemma timer_inv_setTitle: "timer_inv s \<Longrightarrow> timer_inv (setTitle v s)"
  by (erule timer_inv_frame) (simp_all add: setTitle_def setItem_def)

lemma timer_inv_advance:
  assumes "timer_inv s"
  shows "timer_inv (advance dt s)"
proof (cases "next_due (now s + dt) (timers s)")
  case None
  then have "advance dt s = s\<lparr> now := now s + dt \<rparr>"
    by (rule advance_idle)
  with assms show ?thesis
    by (simp add: timer_inv_frame [of s])
next
  case (Some t)
  from assms obtain u where u: "timers s = [u]"
    using Some by (cases "timers s" rule: list.exhaust; cases "tl (timers s)")
      (auto simp: timer_inv_def next_due_def)
  with Some have "t = u" and "due u \<le> now s + dt"
    by (auto simp: next_due_def split: if_splits)
  with u have "timers (advance dt s) = []"
    by (simp add: advance_fire_single fire_timers)
  then show ?thesis
    by (simp add: timer_inv_def)
qed

lemma timer_inv_handleAiRequest:
  "timer_inv s \<Longrightarrow> timer_inv (fst (handleAiRequest API_KEY be m s))"
  by (erule timer_inv_frame)
    (simp_all add: handleAiRequest_def Let_def request_settled_def request_started_def
      split: sum.splits)

lemma timer_inv_insertAiContent: "timer_inv s \<Longrightarrow> timer_inv (insertAiContent exec s)"
  unfolding insertAiContent_def
  by (auto intro!: timer_inv_handleInput elim: timer_inv_frame)

lemma mount_running: "timer_inv (mount render store) \<and> editorRef (mount render store) \<noteq> None"
  by (simp add: mount_def Let_def timer_inv_def setTitle_def setItem_def updateStats_def)

lemma mounted_preserved:
  "editorRef (handleInput s) \<noteq> None \<longleftrightarrow> editorRef s \<noteq> None"
  "editorRef (setTitle v s) \<noteq> None \<longleftrightarrow> editorRef s \<noteq> None"
  "editorRef (input_event e s) \<noteq> None \<longleftrightarrow> editorRef s \<noteq> None"
  by (auto simp: handleInput_frame setTitle_def setItem_def input_event_def)

lemma content_writes_append:
  "setItem_log s' = setItem_log s @ [(content_key, h), (title_key, T)]
   \<Longrightarrow> content_writes s' = content_writes s @ [h]"
  by (simp add: content_writes_def content_key_def title_key_def)

text \<open>
  C2. In a running application (editing surface mounted, debounce invariant), let one
  edit event be followed by any number of further edit events, each less than 1000 ms
  after the previous one. However many they are, exactly one timer is pending after
  them, due 1000 ms after the last event, and nothing has been written; once 1000 ms or
  more pass without an event, exactly one save has occurred, and the content it wrote is
  the surface's markup as of the last event.
\<close>

theorem C2_debounce_burst:
  assumes "timer_inv s" and "editorRef s \<noteq> None"
    and "\<forall>ge \<in> set rest. fst ge < 1000" and "1000 \<le> w"
  shows "length (timers (burst rest (input_event e0 s))) = 1
    \<and> pending_save (title s) (burst rest (input_event e0 s))
    \<and> setItem_log (burst rest (input_event e0 s)) = setItem_log s
    \<and> setItem_log (advance w (burst rest (input_event e0 s)))
        = setItem_log s @ [(content_key, innerHTML (last (e0 # map snd rest))), (title_key, title s)]
    \<and> content_writes (advance w (burst rest (input_event e0 s)))
        = content_writes s @ [innerHTML (last (e0 # map snd rest))]
    \<and> timers (advance w (burst rest (input_event e0 s))) = []"
proof -
  let ?b = "burst rest (input_event e0 s)"
  note ie = input_event_pending [OF assms(1,2), of e0]
  have b: "pending_save (title s) ?b
    \<and> editorRef ?b = Some (last (e0 # map snd rest))
    \<and> setItem_log ?b = setItem_log (input_event e0 s)
    \<and> title ?b = title s"
    using assms(3) ie(1) ie(2) ie(4) by (rule burst_pending)
  from b pending_saveD [of "title s" ?b] obtain i where
    t: "timers ?b = [\<lparr> tid = i, due = now ?b + 1000, saved_title = title s \<rparr>]"
    by blast
  have d: "due \<lparr> tid = i, due = now ?b + 1000, saved_title = title s \<rparr> \<le> now ?b + w"
    using assms(4) by simp
  have e: "editorRef ?b = Some (last (e0 # map snd rest))"
    using b by simp
  note sv = advance_save [OF t d e]
  have 1: "length (timers ?b) = 1"
    by (simp add: t)
  have 2: "setItem_log ?b = setItem_log s"
    using b ie(3) by simp
  have 3: "setItem_log (advance w ?b)
      = setItem_log s @ [(content_key, innerHTML (last (e0 # map snd rest))), (title_key, title s)]"
    using sv(1) 2 by simp
  have 4: "content_writes (advance w ?b) = content_writes s @ [innerHTML (last (e0 # map snd rest))]"
    using 3 by (rule content_writes_append)
  show ?thesis
    using 1 2 3 4 sv(3) b by simp
qed

theorem C2_debounce_burst_witness:
  "timer_inv draft_app \<and> editorRef draft_app \<noteq> None
   \<and> (300::nat) < 1000 \<and> (999::nat) < 1000 \<and> (1000::nat) \<le> 1000
   \<and> content_writes (advance 1000 (burst [(300, edit2), (999, edit3)] (input_event edit1 draft_app)))
     = [lit ''<p>Hello world</p>'']"
proof -
  have i: "timer_inv draft_app"
    by (simp add: timer_inv_def draft_app_def)
  have m: "editorRef draft_app \<noteq> None"
    by (simp add: draft_app_def)
  have g: "\<forall>ge \<in> set [(300, edit2), (999, edit3)]. fst ge < (1000::nat)"
    by simp
  have c: "content_writes draft_app = []"
    by (simp add: content_writes_def draft_app_def content_key_def title_key_def)
  show ?thesis
    using i m C2_debounce_burst [OF i m g order_refl, of edit1]
    by (simp add: c edit3_def)
qed

text \<open>
  C9. A change of the title is written to the store under the title key in the same
  step, whatever the state of the content saves: the pending timers, \<open>saveTimeoutRef\<close>,
  the saving flag, the clock and the stored content are as before.
\<close>

theorem C9_title_write_through:
  assumes "v \<noteq> title s"
  shows "title (setTitle v s) = v
    \<and> localStorage (setTitle v s) title_key = Some v
    \<and> setItem_log (setTitle v s) = setItem_log s @ [(title_key, v)]
    \<and> now (setTitle v s) = now s
    \<and> timers (setTitle v s) = timers s
    \<and> saveTimeoutRef (setTitle v s) = saveTimeoutRef s
    \<and> isSaving (setTitle v s) = isSaving s
    \<and> localStorage (setTitle v s) content_key = localStorage s content_key"
  using assms by (simp add: setTitle_def setItem_def content_key_def title_key_def)

theorem C9_title_write_through_witness:
  "lit ''Notes'' \<noteq> title (input_event edit1 draft_app)
   \<and> isSaving (input_event edit1 draft_app)
   \<and> length (timers (input_event edit1 draft_app)) = 1
   \<and> localStorage (setTitle (lit ''Notes'') (input_event edit1 draft_app)) title_key
     = Some (lit ''Notes'')
   \<and> timers (setTitle (lit ''Notes'') (input_event edit1 draft_app))
     = timers (input_event edit1 draft_app)
   \<and> isSaving (setTitle (lit ''Notes'') (input_event edit1 draft_app))"
proof -
  have t: "lit ''Notes'' \<noteq> title (input_event edit1 draft_app)"
    by (simp add: input_event_def handleInput_frame draft_app_def)
  have p: "isSaving (input_event edit1 draft_app)"
    by (simp add: input_event_def handleInput_frame)
  have i: "timer_inv (draft_app\<lparr> editorRef := map_option (\<lambda>_. edit1) (editorRef draft_app) \<rparr>)"
    by (simp add: timer_inv_def draft_app_def)
  have l: "length (timers (input_event edit1 draft_app)) = 1"
    by (simp add: input_event_def handleInput_timer [OF i])
  show ?thesis
    using t p l C9_title_write_through [OF t] by simp
qed

lemma fire_save:
  assumes "editorRef s = Some e"
  shows "setItem_log (fire t s) = setItem_log s @ [(content_key, innerHTML e), (title_key, saved_title t)]"
    and "localStorage (fire t s) = (localStorage s)(content_key \<mapsto> innerHTML e, title_key \<mapsto> saved_title t)"
  using assms by (simp_all add: fire_def save_callback_def setItem_def)

text \<open>
  C10. The timer \<open>handleInput\<close> schedules captures the title of that moment. When a save
  timer fires, both keys are written: the content key with the surface's markup at that
  time and the title key with the captured title. So when the title is changed between
  the edit event and the firing of its timer, the save puts the old title back in the
  store while the application shows the new one.
\<close>

theorem C10_save_writes_captured_title:
  assumes "timer_inv s" and "editorRef s = Some e" and "dt < 1000" and "1000 \<le> dt + w"
  shows "timers (handleInput s) = [\<lparr> tid = next_timer s, due = now s + 1000, saved_title = title s \<rparr>]
    \<and> setItem_log (fire t s)
        = setItem_log s @ [(content_key, innerHTML e), (title_key, saved_title t)]
    \<and> localStorage (fire t s) content_key = Some (innerHTML e)
    \<and> localStorage (fire t s) title_key = Some (saved_title t)
    \<and> title (advance w (setTitle v (advance dt (handleInput s)))) = v
    \<and> localStorage (advance w (setTitle v (advance dt (handleInput s)))) content_key
        = Some (innerHTML e)
    \<and> localStorage (advance w (setTitle v (advance dt (handleInput s)))) title_key
        = Some (title s)"
proof -
  let ?h = "handleInput s"
  let ?a = "?h\<lparr> now := now ?h + dt \<rparr>"
  let ?t = "\<lparr> tid = next_timer s, due = now s + 1000, saved_title = title s \<rparr>"
  have 1: "timers ?h = [?t]"
    using assms(1) by (rule handleInput_timer)
  have a: "advance dt ?h = ?a"
    using handleInput_pending [OF assms(1)] assms(3) by (rule advance_pending_short)
  have tt: "timers (setTitle v ?a) = [?t]"
    using 1 by (simp add: setTitle_def setItem_def)
  have nn: "now (setTitle v ?a) = now s + dt"
    by (simp add: setTitle_def setItem_def handleInput_frame)
  have dd: "due ?t \<le> now (setTitle v ?a) + w"
    using assms(4) by (simp add: nn)
  have ee: "editorRef (setTitle v ?a) = Some e"
    using assms(2) by (simp add: setTitle_def setItem_def handleInput_frame)
  have vv: "title (setTitle v ?a) = v"
    by (simp add: setTitle_def setItem_def)
  note sv = advance_save [OF tt dd ee]
  have 5: "title (advance w (setTitle v (advance dt ?h))) = v"
    using sv(5) vv by (simp add: a)
  have 6: "localStorage (advance w (setTitle v (advance dt ?h))) content_key = Some (innerHTML e)"
    using sv(2) by (simp add: a content_key_def title_key_def)
  have 7: "localStorage (advance w (setTitle v (advance dt ?h))) title_key = Some (title s)"
    using sv(2) by (simp add: a)
  show ?thesis
    using 1 5 6 7 fire_save [OF assms(2), of t]
    by (simp add: content_key_def title_key_def)
qed

theorem C10_save_writes_captured_title_witness:
  "timer_inv draft_app
   \<and> editorRef draft_app = Some \<lparr> innerHTML = lit ''<p>draft text</p>'', innerText = lit ''draft text'' \<rparr>
   \<and> (400::nat) < 1000 \<and> (1000::nat) \<le> 400 + 600
   \<and> title (advance 600 (setTitle (lit ''Notes'') (advance 400 (handleInput draft_app))))
     = lit ''Notes''
   \<and> localStorage (advance 600 (setTitle (lit ''Notes'') (advance 400 (handleInput draft_app)))) title_key
     = Some (lit ''Untitled document'')
   \<and> localStorage (advance 600 (setTitle (lit ''Notes'') (advance 400 (handleInput draft_app)))) content_key
     = Some (lit ''<p>draft text</p>'')"
proof -
  have i: "timer_inv draft_app"
    by (simp add: timer_inv_def draft_app_def)
  have m: "editorRef draft_app = Some \<lparr> innerHTML = lit ''<p>draft text</p>'', innerText = lit ''draft text'' \<rparr>"
    by (simp add: draft_app_def)
  have d: "(400::nat) < 1000" and w: "(1000::nat) \<le> 400 + 600"
    by simp_all
  have t: "title draft_app = lit ''Untitled document''"
    by (simp add: draft_app_def)
  show ?thesis
    using i m C10_save_writes_captured_title [OF i m d w, of _ "lit ''Notes''"]
    by (simp add: t)
qed


section \<open>Acceptance of a result\<close>

lemma session_of_Responded:
  "session_of s = Responded r \<longleftrightarrow> \<not> aiLoading s \<and> aiResponse s = Some r \<and> r \<noteq> []"
  by (auto simp: session_of_def js_or_def split: option.splits)

lemma session_of_Idle:
  "session_of s = Idle \<longleftrightarrow> \<not> aiLoading s \<and> (aiResponse s = None \<or> aiResponse s = Some [])"
  by (auto simp: session_of_def js_or_def split: option.splits)

text \<open>
  C7, as the code has it. \<open>insertAiContent\<close> acts whenever a non-empty string is held,
  which is the responded state and just as well the state after a failed request, where
  the held string is the apology: it inserts the held string at the cursor, clears the
  held result and the prompt field, leaves the session idle and runs the edit event of the
  autosave scheduler. With nothing held (idle, or a request in flight) it changes nothing.
\<close>

theorem C7_insert_held_text:
  "(session_of s = Responded r \<and> timer_inv s \<longrightarrow>
      editorRef (insertAiContent exec s)
        = map_option (exec (lit ''insertText'') (Some r)) (editorRef s)
      \<and> aiResponse (insertAiContent exec s) = None
      \<and> aiPrompt (insertAiContent exec s) = []
      \<and> session_of (insertAiContent exec s) = Idle
      \<and> isSaving (insertAiContent exec s)
      \<and> timers (insertAiContent exec s)
          = [\<lparr> tid = next_timer s, due = now s + 1000, saved_title = title s \<rparr>])
   \<and> (session_of s = Idle \<longrightarrow> insertAiContent exec s = s)
   \<and> insertAiContent exec (request_started s) = request_started s
   \<and> (\<not> (aiPrompt s = [] \<and> m = Continue)
        \<and> generateContent be
             (generate_request (promptToSend (aiPrompt s) m) (capture_context s) m) = Inl e
      \<longrightarrow> session_of (fst (handleAiRequest API_KEY be m s)) = Responded apology)"
proof -
  have 1: "session_of s = Responded r \<and> timer_inv s \<longrightarrow>
      editorRef (insertAiContent exec s)
        = map_option (exec (lit ''insertText'') (Some r)) (editorRef s)
      \<and> aiResponse (insertAiContent exec s) = None
      \<and> aiPrompt (insertAiContent exec s) = []
      \<and> session_of (insertAiContent exec s) = Idle
      \<and> isSaving (insertAiContent exec s)
      \<and> timers (insertAiContent exec s)
          = [\<lparr> tid = next_timer s, due = now s + 1000, saved_title = title s \<rparr>]"
  proof (intro impI, elim conjE)
    assume r: "session_of s = Responded r" and inv: "timer_inv s"
    let ?s = "s\<lparr> editorRef := map_option (exec (lit ''insertText'') (aiResponse s)) (editorRef s),
             aiResponse := None, aiPrompt := [], showAiModal := False \<rparr>"
    from r have h: "\<not> aiLoading s" "aiResponse s = Some r" "r \<noteq> []"
      by (simp_all add: session_of_Responded)
    have eq: "insertAiContent exec s = handleInput ?s"
      using h by (simp add: insertAiContent_def js_or_def)
    have inv': "timer_inv ?s"
      using inv by (rule timer_inv_frame) simp_all
    show "editorRef (insertAiContent exec s)
        = map_option (exec (lit ''insertText'') (Some r)) (editorRef s)
      \<and> aiResponse (insertAiContent exec s) = None
      \<and> aiPrompt (insertAiContent exec s) = []
      \<and> session_of (insertAiContent exec s) = Idle
      \<and> isSaving (insertAiContent exec s)
      \<and> timers (insertAiContent exec s)
          = [\<lparr> tid = next_timer s, due = now s + 1000, saved_title = title s \<rparr>]"
      using h handleInput_timer(1) [OF inv']
      by (simp add: eq handleInput_frame session_of_Idle)
  qed
  have 2: "session_of s = Idle \<longrightarrow> insertAiContent exec s = s"
    by (auto simp: session_of_Idle insertAiContent_def js_or_def)
  have 3: "insertAiContent exec (request_started s) = request_started s"
    by (simp add: insertAiContent_def request_started_def js_or_def)
  have 4: "\<not> (aiPrompt s = [] \<and> m = Continue)
        \<and> generateContent be
             (generate_request (promptToSend (aiPrompt s) m) (capture_context s) m) = Inl e
      \<longrightarrow> session_of (fst (handleAiRequest API_KEY be m s)) = Responded apology"
    by (auto simp: handleAiRequest_def Let_def generateWritingAssistance_def generate_try_def
        request_settled_def request_started_def session_of_Responded apology_def
        split: sum.splits)
  show ?thesis
    using 1 2 3 4 by blast
qed


theorem C7_insert_held_text_witness:
  "session_of responded_app = Responded (lit ''Draft text.'') \<and> timer_inv responded_app
   \<and> editorRef (insertAiContent appending_surface responded_app)
     = Some \<lparr> innerHTML = lit ''<p>draft text</p>Draft text.'',
              innerText = lit ''draft textDraft text.'' \<rparr>
   \<and> session_of (insertAiContent appending_surface responded_app) = Idle
   \<and> length (timers (insertAiContent appending_surface responded_app)) = 1
   \<and> session_of draft_app = Idle
   \<and> insertAiContent appending_surface draft_app = draft_app
   \<and> generateContent failing_backend
       (generate_request (promptToSend (aiPrompt draft_app) Fix) (capture_context draft_app) Fix)
     = Inl (Error (lit ''fetch failed''))
   \<and> session_of (fst (handleAiRequest (Some (lit ''k'')) failing_backend Fix draft_app))
     = Responded apology"
proof -
  have f: "generateContent failing_backend
       (generate_request (promptToSend (aiPrompt draft_app) Fix) (capture_context draft_app) Fix)
     = Inl (Error (lit ''fetch failed''))"
    by (simp add: failing_backend_def)
  have l: "aiLoading responded_app = False"
    and r: "aiResponse responded_app = Some (lit ''Draft text.'')"
    and t: "timers responded_app = []"
    and e: "editorRef responded_app
     = Some \<lparr> innerHTML = lit ''<p>draft text</p>'', innerText = lit ''draft text'' \<rparr>"
    by (simp_all add: responded_app_def handleAiRequest_def draft_app_def Let_def
        request_settled_def request_started_def generateWritingAssistance_def generate_try_def
        getAI_def js_or_def answering_backend_def)
  have s: "session_of responded_app = Responded (lit ''Draft text.'')"
    by (simp add: session_of_Responded l r)
  have i: "timer_inv responded_app"
    by (simp add: timer_inv_def t)
  have d: "session_of draft_app = Idle"
    by (simp add: session_of_Idle draft_app_def)
  have a: "appending_surface (lit ''insertText'') (Some (lit ''Draft text.''))
      \<lparr> innerHTML = lit ''<p>draft text</p>'', innerText = lit ''draft text'' \<rparr>
      = \<lparr> innerHTML = lit ''<p>draft text</p>Draft text.'',
              innerText = lit ''draft textDraft text.'' \<rparr>"
    by (simp add: appending_surface_def js_or_def lit_def)
  show ?thesis
    using s i d f
      C7_insert_held_text [of responded_app "lit ''Draft text.''" appending_surface]
      C7_insert_held_text [of draft_app _ appending_surface Fix failing_backend
        "Error (lit ''fetch failed'')" "Some (lit ''k'')"]
    by (simp add: e a)
qed

text \<open>
  C7 as stated fails: after a request that failed, the state the spec calls errored, the
  held string is the apology and \<open>insertAiContent\<close> inserts it into the editing surface.
\<close>

theorem C7_counterexample:
  "session_of errored_app
     = Responded (lit ''Sorry, I encountered an error while processing your request.'')
   \<and> editorRef (insertAiContent appending_surface errored_app)
     = Some \<lparr> innerHTML = lit ''<p>draft text</p>Sorry, I encountered an error while processing your request.'',
              innerText = lit ''draft textSorry, I encountered an error while processing your request.'' \<rparr>
   \<and> insertAiContent appending_surface errored_app \<noteq> errored_app"
proof -
  have l: "aiLoading errored_app = False"
    and r: "aiResponse errored_app
      = Some (lit ''Sorry, I encountered an error while processing your request.'')"
    and e: "editorRef errored_app
     = Some \<lparr> innerHTML = lit ''<p>draft text</p>'', innerText = lit ''draft text'' \<rparr>"
    by (simp_all add: errored_app_def handleAiRequest_def draft_app_def Let_def
        request_settled_def request_started_def generateWritingAssistance_def generate_try_def
        getAI_def js_or_def failing_backend_def apology_def)
  have s: "session_of errored_app
     = Responded (lit ''Sorry, I encountered an error while processing your request.'')"
    by (simp add: session_of_Responded l r)
  have ins: "editorRef (insertAiContent appending_surface errored_app)
     = Some \<lparr> innerHTML = lit ''<p>draft text</p>Sorry, I encountered an error while processing your request.'',
              innerText = lit ''draft textSorry, I encountered an error while processing your request.'' \<rparr>"
    by (simp add: insertAiContent_def r e js_or_def handleInput_frame appending_surface_def lit_def)
  have "editorRef (insertAiContent appending_surface errored_app) \<noteq> editorRef errored_app"
    by (simp add: ins e)
  then have "insertAiContent appending_surface errored_app \<noteq> errored_app"
    by auto
  then show ?thesis
    using s ins by simp
qed

end
